theory Spec2Isabelle
  imports Complex_Main "HOL-Library.Char_ord" "HOL-Library.List_Lexorder"
begin

section \<open>Cells, columns and tables\<close>

text \<open>
  The runner turns JSON records into pandas tables. A cell holds one JSON scalar:
  \<open>null\<close> (\<open>CNone\<close>), a boolean, an integer, a float or a string; \<open>CNaN\<close> is the
  not-a-number value pandas puts where a record has no value for a column. A float is
  the real number it denotes: storing an integer in a float column rounds it to the
  nearest 64-bit float, while the arithmetic on floats is idealised (no rounding, no
  overflow). JSON integers are taken in the signed 64-bit range.

  A column has a name, a dtype and its cells; a table has a row count (a table may have
  rows and no columns) and an ordered list of columns. Column names may repeat: pandas
  allows it, and concatenating one-hot columns can produce it.
\<close>

datatype cell = CNone | CNaN | CBool bool | CInt int | CFloat real | CStr string

datatype dtype = DBool | DInt | DFloat | DObject

datatype column = Column (cname: string) (cdtype: dtype) (cvals: "cell list")

datatype table = Table (nrows: nat) (cols: "column list")

datatype py_error =
    KeyError string
  | IndexError
  | ValueError string
  | TypeError string
  | ModelError string

text \<open>\<open>df.columns\<close>, \<open>name in df.columns\<close> and the columns a name selects.\<close>

definition columns :: "table \<Rightarrow> string list" where
  "columns t = map cname (cols t)"

definition has_col :: "table \<Rightarrow> string \<Rightarrow> bool" where
  "has_col t c = (c \<in> set (columns t))"

definition cols_named :: "table \<Rightarrow> string \<Rightarrow> column list" where
  "cols_named t c = filter (\<lambda>k. cname k = c) (cols t)"

text \<open>
  \<open>df[c] = values\<close>: a new name is appended as the last column; an existing name keeps
  its position and gets the new dtype and cells (every column of that name, when the
  name repeats).
\<close>

definition setitem :: "table \<Rightarrow> string \<Rightarrow> dtype \<Rightarrow> cell list \<Rightarrow> table" where
  "setitem t c d vs =
     (if has_col t c
      then Table (nrows t) (map (\<lambda>k. if cname k = c then Column c d vs else k) (cols t))
      else Table (nrows t) (cols t @ [Column c d vs]))"

text \<open>\<open>df[c] = scalar\<close> broadcasts the scalar over the rows.\<close>

definition setitem_scalar :: "table \<Rightarrow> string \<Rightarrow> dtype \<Rightarrow> cell \<Rightarrow> table" where
  "setitem_scalar t c d v = setitem t c d (replicate (nrows t) v)"

text \<open>\<open>df.drop(columns=[c])\<close>, used by the source only under \<open>c in df.columns\<close>.\<close>

definition drop_col :: "table \<Rightarrow> string \<Rightarrow> table" where
  "drop_col t c = Table (nrows t) (filter (\<lambda>k. cname k \<noteq> c) (cols t))"

text \<open>
  \<open>df[names]\<close> with a list of names: \<open>KeyError\<close> when a name labels no column;
  otherwise, for each name in turn, every column carrying that name.
\<close>

definition getitem_list :: "table \<Rightarrow> string list \<Rightarrow> py_error + table" where
  "getitem_list t names =
     (case filter (\<lambda>f. \<not> has_col t f) names of
        f # _ \<Rightarrow> Inl (KeyError f)
      | [] \<Rightarrow> Inr (Table (nrows t) (concat (map (cols_named t) names))))"

section \<open>The feature aligner (\<open>ensure_features\<close>)\<close>

text \<open>
  Tables are objects: the caller and \<open>ensure_features\<close> share the table passed in. The
  heap is the list of tables allocated so far, a reference is an index into it.
  \<^verbatim>\<open>
  def ensure_features(df, required_features):
      for feature in required_features:
          if feature not in df.columns:
              df[feature] = 0
      return df[required_features]
  \<close>
  The loop writes into the table at \<open>df\<close>; the selection allocates a new table.
\<close>

type_synonym heap = "table list"

fun ensure_loop :: "heap \<Rightarrow> nat \<Rightarrow> string list \<Rightarrow> heap" where
  "ensure_loop h df [] = h"
| "ensure_loop h df (feature # rest) =
     ensure_loop
       (if \<not> has_col (h ! df) feature
        then h[df := setitem_scalar (h ! df) feature DInt (CInt 0)]
        else h)
       df rest"

definition ensure_features :: "heap \<Rightarrow> nat \<Rightarrow> string list \<Rightarrow> heap \<times> (py_error + nat)" where
  "ensure_features h df required_features =
     (let h1 = ensure_loop h df required_features in
      case getitem_list (h1 ! df) required_features of
        Inl e \<Rightarrow> (h1, Inl e)
      | Inr t \<Rightarrow> (h1 @ [t], Inr (length h1)))"

text \<open>The table \<open>ensure_features\<close> returns, when it returns one.\<close>

definition aligned :: "heap \<Rightarrow> nat \<Rightarrow> string list \<Rightarrow> table option" where
  "aligned h df required_features =
     (case ensure_features h df required_features of
        (h', Inr r) \<Rightarrow> Some (h' ! r)
      | (h', Inl e) \<Rightarrow> None)"

definition zero_column :: "nat \<Rightarrow> string \<Rightarrow> column" where
  "zero_column n f = Column f DInt (replicate n (CInt 0))"

text \<open>
  The loop as a function of the table alone, and the columns the selection takes for one
  required name; both are used to state what \<open>ensure_features\<close> computes.
\<close>

fun add_missing :: "table \<Rightarrow> string list \<Rightarrow> table" where
  "add_missing t [] = t"
| "add_missing t (f # fs) =
     add_missing (if \<not> has_col t f then setitem_scalar t f DInt (CInt 0) else t) fs"

definition align_cols :: "table \<Rightarrow> string \<Rightarrow> column list" where
  "align_cols t f = (if has_col t f then cols_named t f else [zero_column (nrows t) f])"

section \<open>Python strings\<close>

text \<open>
  \<open>str(v)\<close> of a cell. The decimal rendering of an integer is defined here; the
  rendering of a float (\<open>repr\<close>) is a parameter \<open>fr\<close> of the model. Strings are lists
  of bytes, and the case and white-space functions below cover the ASCII range.
\<close>

function str_nat :: "nat \<Rightarrow> string" where
  "str_nat n =
     (if n < 10 then [''0123456789'' ! n]
      else str_nat (n div 10) @ [''0123456789'' ! (n mod 10)])"
  by pat_completeness auto
termination
  by (relation "measure id") auto

declare str_nat.simps [simp del]

definition str_int :: "int \<Rightarrow> string" where
  "str_int i = (if i < 0 then CHR ''-'' # str_nat (nat (- i)) else str_nat (nat i))"

fun py_str :: "(real \<Rightarrow> string) \<Rightarrow> cell \<Rightarrow> string" where
  "py_str fr CNone = ''None''"
| "py_str fr CNaN = ''nan''"
| "py_str fr (CBool b) = (if b then ''True'' else ''False'')"
| "py_str fr (CInt i) = str_int i"
| "py_str fr (CFloat x) = fr x"
| "py_str fr (CStr s) = s"

definition lower_char :: "char \<Rightarrow> char" where
  "lower_char c =
     (case map_of (zip ''ABCDEFGHIJKLMNOPQRSTUVWXYZ'' ''abcdefghijklmnopqrstuvwxyz'') c of
        Some d \<Rightarrow> d
      | None \<Rightarrow> c)"

definition lower :: "string \<Rightarrow> string" where
  "lower s = map lower_char s"

text \<open>\<open>s.split(sep)\<close> for a one-character separator.\<close>

fun split_on :: "char \<Rightarrow> string \<Rightarrow> string list" where
  "split_on sep [] = [[]]"
| "split_on sep (c # cs) =
     (if c = sep then [] # split_on sep cs
      else (case split_on sep cs of
              p # ps \<Rightarrow> (c # p) # ps
            | [] \<Rightarrow> [[c]]))"

text \<open>
  \<open>int(s)\<close> on a string: surrounding white space is stripped, a sign may come first,
  then decimal digits, where single underscores may separate digits. \<open>None\<close> stands
  for \<open>ValueError\<close>. (The interpreter's limit on the number of digits is not modelled.)
\<close>

definition is_space :: "char \<Rightarrow> bool" where
  "is_space c =
     (c \<in> set [CHR '' '', CHR 0x09, CHR 0x0A, CHR 0x0B, CHR 0x0C, CHR 0x0D,
               CHR 0x1C, CHR 0x1D, CHR 0x1E, CHR 0x1F])"

definition strip :: "string \<Rightarrow> string" where
  "strip s = rev (dropWhile is_space (rev (dropWhile is_space s)))"

definition digit_val :: "char \<Rightarrow> nat option" where
  "digit_val c = map_of (zip ''0123456789'' [0, 1, 2, 3, 4, 5, 6, 7, 8, 9]) c"

fun py_digits :: "nat \<Rightarrow> string \<Rightarrow> nat option" where
  "py_digits acc [] = Some acc"
| "py_digits acc [c] =
     (case digit_val c of None \<Rightarrow> None | Some v \<Rightarrow> Some (10 * acc + v))"
| "py_digits acc (c # d # ds) =
     (if c = CHR ''_''
      then (case digit_val d of None \<Rightarrow> None | Some v \<Rightarrow> py_digits (10 * acc + v) ds)
      else (case digit_val c of None \<Rightarrow> None | Some v \<Rightarrow> py_digits (10 * acc + v) (d # ds)))"

definition py_nat :: "string \<Rightarrow> nat option" where
  "py_nat s =
     (case s of
        [] \<Rightarrow> None
      | c # cs \<Rightarrow> (case digit_val c of None \<Rightarrow> None | Some v \<Rightarrow> py_digits v cs))"

definition py_int :: "string \<Rightarrow> int option" where
  "py_int s =
     (case strip s of
        [] \<Rightarrow> None
      | c # cs \<Rightarrow>
          if c = CHR ''-'' then map_option (\<lambda>n. - int n) (py_nat cs)
          else if c = CHR ''+'' then map_option int (py_nat cs)
          else map_option int (py_nat (c # cs)))"

section \<open>Building a table from records (\<open>pd.DataFrame\<close>)\<close>

text \<open>
  A record is a JSON object with scalar values: its keys, in order, each with a cell.
  \<open>pd.DataFrame(records)\<close> has one row per record and one column per key, in order of
  first appearance; a record without the key contributes NaN. Each column is then given a
  dtype by inference: a string anywhere makes an object column, booleans make a boolean
  column only when nothing else is there, and numbers with a missing value become floats
  (so an integer next to a missing value is stored as a float, and \<open>null\<close> as NaN).
\<close>

type_synonym raw_record = "(string \<times> cell) list"

definition isna :: "cell \<Rightarrow> bool" where
  "isna v = (v = CNone \<or> v = CNaN)"

fun is_str :: "cell \<Rightarrow> bool" where
  "is_str (CStr s) = True"
| "is_str v = False"

fun is_bool :: "cell \<Rightarrow> bool" where
  "is_bool (CBool b) = True"
| "is_bool v = False"

fun is_int :: "cell \<Rightarrow> bool" where
  "is_int (CInt i) = True"
| "is_int v = False"

fun is_float :: "cell \<Rightarrow> bool" where
  "is_float (CFloat x) = True"
| "is_float v = False"

text \<open>
  The integer a 64-bit float holds after an integer is converted to it: integers of at most
  53 bits are exact, longer ones are rounded to 53 significant bits, ties to even.
\<close>

function bit_length :: "int \<Rightarrow> nat" where
  "bit_length n = (if n \<le> 0 then 0 else Suc (bit_length (n div 2)))"
  by pat_completeness auto
termination
  by (relation "measure nat") auto

declare bit_length.simps [simp del]

definition round_double :: "int \<Rightarrow> int" where
  "round_double i =
     (let a = \<bar>i\<bar>; b = bit_length a in
      if b \<le> 53 then i
      else
        (let ulp = 2 ^ (b - 53); q = a div ulp; r = a mod ulp;
             q' = (if 2 * r < ulp then q else if ulp < 2 * r then q + 1 else q + q mod 2)
         in sgn i * (q' * ulp)))"

fun to_float_cell :: "cell \<Rightarrow> cell" where
  "to_float_cell CNone = CNaN"
| "to_float_cell (CInt i) = CFloat (of_int (round_double i))"
| "to_float_cell v = v"

definition infer_column :: "cell list \<Rightarrow> dtype \<times> cell list" where
  "infer_column vs =
     (if list_ex is_str vs then (DObject, vs)
      else if list_ex is_bool vs then
        (if list_all is_bool vs then (DBool, vs) else (DObject, vs))
      else if list_ex isna vs then
        (if list_ex is_float vs \<or> list_ex is_int vs \<or> list_ex (\<lambda>v. v = CNaN) vs
         then (DFloat, map to_float_cell vs)
         else (DObject, vs))
      else if list_ex is_float vs then (DFloat, map to_float_cell vs)
      else if list_ex is_int vs then (DInt, vs)
      else (DObject, vs))"

definition first_keys :: "raw_record list \<Rightarrow> string list" where
  "first_keys rs = rev (remdups (rev (concat (map (map fst) rs))))"

definition raw_column :: "raw_record list \<Rightarrow> string \<Rightarrow> cell list" where
  "raw_column rs c = map (\<lambda>r. case map_of r c of None \<Rightarrow> CNaN | Some v \<Rightarrow> v) rs"

definition DataFrame :: "raw_record list \<Rightarrow> table" where
  "DataFrame rs =
     Table (length rs)
       (map (\<lambda>c. case infer_column (raw_column rs c) of (d, vs) \<Rightarrow> Column c d vs)
          (first_keys rs))"

section \<open>Column operations shared by the two encoders\<close>

text \<open>
  \<open>df[c]\<close> as a series. The encoders read a series only under \<open>c in df.columns\<close> and
  only for names that label one column of a table built from records.
\<close>

definition series :: "table \<Rightarrow> string \<Rightarrow> cell list" where
  "series t c = (case cols_named t c of k # ks \<Rightarrow> cvals k | [] \<Rightarrow> [])"

text \<open>The truthy tokens: \<open>.astype(str).str.lower().isin(["true", "1", "yes"])\<close>.\<close>

definition truthy :: "(real \<Rightarrow> string) \<Rightarrow> cell \<Rightarrow> bool" where
  "truthy fr v = (lower (py_str fr v) \<in> set [''true'', ''1'', ''yes''])"

text \<open>\<open>df[mask].reset_index(drop=True)\<close>: the rows where the mask holds, renumbered.\<close>

definition filter_rows :: "bool list \<Rightarrow> table \<Rightarrow> table" where
  "filter_rows keep t =
     Table (length (filter id keep))
       (map (\<lambda>k. Column (cname k) (cdtype k) (map snd (filter fst (zip keep (cvals k)))))
          (cols t))"

text \<open>
  One-hot expansion of a categorical column:
  \<^verbatim>\<open>
  df[col] = df[col].fillna(fallback).astype(str)
  dummies = pd.get_dummies(df[col], prefix=col)
  df = pd.concat([df.drop(columns=[col]), dummies], axis=1)
  \<close>
  \<open>get_dummies\<close> makes one boolean column per value that occurs, in sorted order, named
  \<open>prefix_value\<close>; a value that does not occur gets no column. (The columns are boolean
  in pandas 2; as numbers \<open>True\<close> is 1 and \<open>False\<close> is 0.)
\<close>

definition fillna_str :: "string \<Rightarrow> (real \<Rightarrow> string) \<Rightarrow> cell \<Rightarrow> string" where
  "fillna_str fallback fr v = (if isna v then fallback else py_str fr v)"

definition get_dummies :: "string \<Rightarrow> string list \<Rightarrow> column list" where
  "get_dummies prefix vals =
     map (\<lambda>u. Column (prefix @ ''_'' @ u) DBool (map (\<lambda>v. CBool (v = u)) vals))
       (sort (remdups vals))"

definition one_hot :: "(real \<Rightarrow> string) \<Rightarrow> string \<Rightarrow> string \<Rightarrow> table \<Rightarrow> table" where
  "one_hot fr fallback c t =
     (if has_col t c
      then Table (nrows t)
             (cols (drop_col t c) @ get_dummies c (map (fillna_str fallback fr) (series t c)))
      else t)"

text \<open>A boolean field: \<open>df[col] = df[col].astype(str).str.lower().isin([...]).astype(int)\<close>.\<close>

definition bool_col :: "(real \<Rightarrow> string) \<Rightarrow> string \<Rightarrow> table \<Rightarrow> table" where
  "bool_col fr c t =
     (if has_col t c
      then setitem t c DInt (map (\<lambda>v. CInt (if truthy fr v then 1 else 0)) (series t c))
      else t)"

text \<open>
  The final sweep:
  \<^verbatim>\<open>
  for col in df.columns:
      if pd.api.types.is_numeric_dtype(df[col]):
          df[col] = df[col].fillna(0)
  \<close>
  When a name labels several columns, \<open>df[col]\<close> is a table, not a series, and
  \<open>is_numeric_dtype\<close> answers no.
\<close>

fun is_numeric_dtype :: "dtype \<Rightarrow> bool" where
  "is_numeric_dtype DObject = False"
| "is_numeric_dtype d = True"

definition fillna0 :: "cell \<Rightarrow> cell" where
  "fillna0 v = (if isna v then CFloat 0 else v)"

definition sweep_step :: "string \<Rightarrow> table \<Rightarrow> table" where
  "sweep_step c t =
     (case cols_named t c of
        [k] \<Rightarrow> if is_numeric_dtype (cdtype k)
               then setitem t c (cdtype k) (map fillna0 (cvals k)) else t
      | ks \<Rightarrow> t)"

definition nan_sweep :: "table \<Rightarrow> table" where
  "nan_sweep t = fold sweep_step (columns t) t"

text \<open>
  Library functions the encoders call and this model takes as parameters: the rendering
  of a float as a string, \<open>pd.to_numeric(series, errors="coerce")\<close> (from a column to
  the dtype and cells of the result) and \<open>dateutil.parser.parse\<close> (from a string to the
  month and weekday of the parsed date, \<open>None\<close> when it raises).
\<close>

datatype lib = Lib
  (float_repr: "real \<Rightarrow> string")
  (to_numeric: "column \<Rightarrow> dtype \<times> cell list")
  (dateutil_parse: "string \<Rightarrow> (int \<times> int) option")

definition first_col :: "table \<Rightarrow> string \<Rightarrow> column" where
  "first_col t c = (case cols_named t c of k # ks \<Rightarrow> k | [] \<Rightarrow> Column c DObject [])"

section \<open>The preference encoder (\<open>prep_preferences.py\<close>)\<close>

definition PREF_ONE_HOT_COLS :: "string list" where
  "PREF_ONE_HOT_COLS =
     [''level'', ''cyclingType'', ''cyclingFrequency'', ''cyclingDistance'', ''hikeType'',
      ''hikeDuration'', ''hikePreference'', ''campingType'', ''campingDuration'']"

definition PREF_BOOL_COLS :: "string list" where
  "PREF_BOOL_COLS = [''cyclingGroupInterest'', ''campingPractice'']"

definition PREF_DAYS :: "string list" where
  "PREF_DAYS =
     [''MONDAY'', ''TUESDAY'', ''WEDNESDAY'', ''THURSDAY'', ''FRIDAY'', ''SATURDAY'',
      ''SUNDAY'']"

text \<open>
  \<^verbatim>\<open>
  def _parse_hour_to_float(h):
      if pd.isna(h):
          return np.nan
      try:
          parts = str(h).split(":")
          if len(parts) != 2:
              return np.nan
          hh = int(parts[0])
          mm = int(parts[1])
          return hh + mm / 60.0
      except Exception:
          return np.nan
  \<close>
  \<open>parse_hour_try\<close> is the body of the \<open>try\<close>, with \<open>Inl\<close> for an exception raised
  inside it.
\<close>

definition parse_hour_try :: "string \<Rightarrow> py_error + cell" where
  "parse_hour_try s =
     (let parts = split_on CHR '':'' s in
      if length parts \<noteq> 2 then Inr CNaN
      else (case py_int (parts ! 0) of
              None \<Rightarrow> Inl (ValueError (parts ! 0))
            | Some hh \<Rightarrow>
                (case py_int (parts ! 1) of
                   None \<Rightarrow> Inl (ValueError (parts ! 1))
                 | Some mm \<Rightarrow> Inr (CFloat (of_int hh + of_int mm / 60)))))"

definition parse_hour_to_float :: "(real \<Rightarrow> string) \<Rightarrow> cell \<Rightarrow> cell" where
  "parse_hour_to_float fr h =
     (if isna h then CNaN
      else (case parse_hour_try (py_str fr h) of Inl e \<Rightarrow> CNaN | Inr v \<Rightarrow> v))"

text \<open>
  The availability field:
  \<^verbatim>\<open>
  if "availableDays" in df.columns:
      for j in PREF_DAYS:
          df[f"day_{j}"] = 0
      all_days = df["availableDays"].apply(_encode_days)
      for idx, days in all_days.items():
          for j in PREF_DAYS:
              if j in days:
                  df.at[idx, f"day_{j}"] = 1
      df = df.drop(columns=["availableDays"])
  \<close>
\<close>

definition encode_days :: "(real \<Rightarrow> string) \<Rightarrow> cell \<Rightarrow> string list" where
  "encode_days fr val = (if isna val then [] else split_on CHR ''|'' (py_str fr val))"

definition set_at :: "table \<Rightarrow> nat \<Rightarrow> string \<Rightarrow> cell \<Rightarrow> table" where
  "set_at t idx c v =
     Table (nrows t)
       (map (\<lambda>k. if cname k = c then Column c (cdtype k) ((cvals k)[idx := v]) else k)
          (cols t))"

definition mark_days :: "nat \<Rightarrow> string list \<Rightarrow> table \<Rightarrow> table" where
  "mark_days idx days t =
     fold (\<lambda>j t. if j \<in> set days then set_at t idx (''day_'' @ j) (CInt 1) else t)
       PREF_DAYS t"

fun mark_rows :: "nat \<Rightarrow> string list list \<Rightarrow> table \<Rightarrow> table" where
  "mark_rows idx [] t = t"
| "mark_rows idx (days # rest) t = mark_rows (Suc idx) rest (mark_days idx days t)"

definition days_step :: "(real \<Rightarrow> string) \<Rightarrow> table \<Rightarrow> table" where
  "days_step fr t =
     (if has_col t ''availableDays''
      then (let t1 = fold (\<lambda>j t. setitem_scalar t (''day_'' @ j) DInt (CInt 0)) PREF_DAYS t;
                all_days = map (encode_days fr) (series t1 ''availableDays'')
            in drop_col (mark_rows 0 all_days t1) ''availableDays'')
      else t)"

text \<open>
  A time-of-day field: \<open>df[dst] = df[src].apply(_parse_hour_to_float)\<close>, then
  \<open>df = df.drop(columns=[src])\<close>. The results are floats, so the new column is a
  float column; on a table without rows \<open>apply\<close> returns an empty series of the dtype
  of the source column.
\<close>

definition time_col :: "(real \<Rightarrow> string) \<Rightarrow> string \<Rightarrow> string \<Rightarrow> table \<Rightarrow> table" where
  "time_col fr src dst t =
     (if has_col t src
      then drop_col
             (setitem t dst (if series t src = [] then cdtype (first_col t src) else DFloat)
                (map (parse_hour_to_float fr) (series t src)))
             src
      else t)"

text \<open>A designated numeric field: \<open>df[col] = pd.to_numeric(df[col], errors="coerce")\<close>.\<close>

definition numeric_col :: "lib \<Rightarrow> string \<Rightarrow> table \<Rightarrow> table" where
  "numeric_col L c t =
     (if has_col t c
      then (case to_numeric L (first_col t c) of (d, vs) \<Rightarrow> setitem t c d vs)
      else t)"

text \<open>
  The encoder, on the copy it makes of its argument. The completion flag filters rows
  first; then the categorical fields, the boolean fields, the availability field, the
  two times of day, the three numeric fields and the sweep.
\<close>

definition onboarding_filter :: "(real \<Rightarrow> string) \<Rightarrow> table \<Rightarrow> table" where
  "onboarding_filter fr t =
     (if has_col t ''onboardingComplete''
      then filter_rows (map (truthy fr) (series t ''onboardingComplete'')) t
      else t)"

definition prepare_preferences :: "lib \<Rightarrow> table \<Rightarrow> table" where
  "prepare_preferences L df0 =
     (let fr = float_repr L;
          df1 = onboarding_filter fr df0;
          df2 = fold (one_hot fr ''UNKNOWN'') PREF_ONE_HOT_COLS df1;
          df3 = fold (bool_col fr) PREF_BOOL_COLS df2;
          df4 = days_step fr df3;
          df5 = time_col fr ''start'' ''start_hour'' df4;
          df6 = time_col fr ''end'' ''end_hour'' df5;
          df7 = fold (numeric_col L) [''latitude'', ''longitude'', ''averageSpeed''] df6
      in nan_sweep df7)"

text \<open>
  \<open>prepare_preferences_dataframe(df)\<close> starts with \<open>df = df.copy()\<close> and works on the
  copy: the table it returns is a new object and the argument is never written.
\<close>

definition prepare_preferences_dataframe :: "lib \<Rightarrow> heap \<Rightarrow> nat \<Rightarrow> heap \<times> nat" where
  "prepare_preferences_dataframe L h df = (h @ [prepare_preferences L (h ! df)], length h)"

section \<open>The outing encoder (\<open>prep_sorties.py\<close>)\<close>

definition SORTIES_REMOVE_TEXT_COLS :: "string list" where
  "SORTIES_REMOVE_TEXT_COLS =
     [''titre'', ''description'', ''photo'', ''createurId'', ''itineraire_description'']"

definition SORTIES_BOOL_COLS :: "string list" where
  "SORTIES_BOOL_COLS = [''option_camping'', ''camping'']"

definition SORTIES_NUMERIC_COLS :: "string list" where
  "SORTIES_NUMERIC_COLS =
     [''capacite'', ''distance'', ''duree_estimee'', ''depart_lat'', ''depart_lon'',
      ''arrivee_lat'', ''arrivee_lon'']"

definition remove_col :: "string \<Rightarrow> table \<Rightarrow> table" where
  "remove_col c t = (if has_col t c then drop_col t c else t)"

text \<open>\<open>df[col] = pd.to_numeric(df[col], errors="coerce").fillna(0)\<close>.\<close>

definition numeric_fill_col :: "lib \<Rightarrow> string \<Rightarrow> table \<Rightarrow> table" where
  "numeric_fill_col L c t =
     (if has_col t c
      then (case to_numeric L (first_col t c) of (d, vs) \<Rightarrow> setitem t c d (map fillna0 vs))
      else t)"

text \<open>
  \<^verbatim>\<open>
  def _parse_datetime_safe(dt):
      if pd.isna(dt):
          return None
      try:
          return parser.parse(str(dt))
      except Exception:
          return None
  \<close>
  and the two columns that replace the date:
  \<^verbatim>\<open>
  df["mois"] = dt_parsed.apply(lambda d: d.month if d is not None else 0)
  df["jour_semaine"] = dt_parsed.apply(lambda d: d.weekday() if d is not None else 0)
  \<close>
  When every date is parsed, or none is, the two columns are integer columns. When only
  some are, pandas keeps the parsed dates as a datetime series in which a failed date is
  \<open>NaT\<close>, which is not \<open>None\<close> and whose month and weekday are NaN: the two columns
  are then float columns (the sweep turns the NaN into 0). On a table without rows the
  columns are empty and keep the dtype of the date column.
\<close>

definition parse_datetime_safe :: "lib \<Rightarrow> cell \<Rightarrow> (int \<times> int) option" where
  "parse_datetime_safe L dt =
     (if isna dt then None else dateutil_parse L (py_str (float_repr L) dt))"

definition date_part ::
  "(int \<times> int \<Rightarrow> int) \<Rightarrow> dtype \<Rightarrow> (int \<times> int) option list \<Rightarrow> dtype \<times> cell list" where
  "date_part part src_dtype dt_parsed =
     (if dt_parsed = [] then (src_dtype, [])
      else if list_all (\<lambda>d. d = None) dt_parsed \<or> list_all (\<lambda>d. d \<noteq> None) dt_parsed
      then (DInt, map (\<lambda>d. CInt (case d of None \<Rightarrow> 0 | Some mw \<Rightarrow> part mw)) dt_parsed)
      else (DFloat,
            map (\<lambda>d. case d of None \<Rightarrow> CNaN | Some mw \<Rightarrow> CFloat (of_int (part mw)))
              dt_parsed))"

definition date_step :: "lib \<Rightarrow> table \<Rightarrow> table" where
  "date_step L t =
     (if has_col t ''date''
      then (let dt_parsed = map (parse_datetime_safe L) (series t ''date'');
                src_dtype = cdtype (first_col t ''date'');
                t1 = (case date_part fst src_dtype dt_parsed of
                        (d, vs) \<Rightarrow> setitem t ''mois'' d vs);
                t2 = (case date_part snd src_dtype dt_parsed of
                        (d, vs) \<Rightarrow> setitem t1 ''jour_semaine'' d vs)
            in drop_col t2 ''date'')
      else t)"

definition prepare_sorties :: "lib \<Rightarrow> table \<Rightarrow> table" where
  "prepare_sorties L df0 =
     (let fr = float_repr L;
          df1 = fold remove_col SORTIES_REMOVE_TEXT_COLS df0;
          df2 = one_hot fr ''INCONNUE'' ''difficulte'' df1;
          df3 = one_hot fr ''UNKNOWN'' ''type'' df2;
          df4 = fold (bool_col fr) SORTIES_BOOL_COLS df3;
          df5 = fold (numeric_fill_col L) SORTIES_NUMERIC_COLS df4;
          df6 = date_step L df5
      in nan_sweep df6)"

definition prepare_sorties_dataframe :: "lib \<Rightarrow> heap \<Rightarrow> nat \<Rightarrow> heap \<times> nat" where
  "prepare_sorties_dataframe L h df = (h @ [prepare_sorties L (h ! df)], length h)"

section \<open>The runner (\<open>recommendation_runner.py\<close>)\<close>

text \<open>
  The six artefacts \<open>load_models\<close> returns. The scalers and the clustering models are
  opaque: a scaler takes the aligned table to a matrix of some type \<open>'m\<close> or raises, a
  clustering model takes the matrix to one cluster id per row or raises.
\<close>

datatype 'm models = Models
  (preferences_scaler: "table \<Rightarrow> py_error + 'm")
  (preferences_kmeans: "'m \<Rightarrow> py_error + int list")
  (preferences_features: "string list")
  (sorties_scaler: "table \<Rightarrow> py_error + 'm")
  (sorties_kmeans: "'m \<Rightarrow> py_error + int list")
  (sorties_features: "string list")

text \<open>
  Each stage entered is recorded, so that a statement can say which stages a request
  went through.
\<close>

datatype side = Preference | Outing

datatype stage = Encode | Align | Scale | Predict

type_synonym event = "side \<times> stage"

text \<open>
  \<^verbatim>\<open>
  def predict_user_cluster(user_prefs, models):
      df = pd.DataFrame([user_prefs])
      df_processed = prepare_preferences_dataframe(df)
      df_features = ensure_features(df_processed, models["preferences_features"])
      df_scaled = models["preferences_scaler"].transform(df_features)
      cluster = models["preferences_kmeans"].predict(df_scaled)[0]
      return int(cluster)
  \<close>
  The \<open>except\<close> clause prints a message and raises the exception again.
\<close>

definition predict_user_cluster ::
  "lib \<Rightarrow> 'm models \<Rightarrow> raw_record \<Rightarrow> event list \<times> (py_error + int)" where
  "predict_user_cluster L M user_prefs =
     (let h0 = [DataFrame [user_prefs]];
          (h1, df_processed) = prepare_preferences_dataframe L h0 0;
          (h2, res) = ensure_features h1 df_processed (preferences_features M)
      in case res of
           Inl e \<Rightarrow> ([(Preference, Encode), (Preference, Align)], Inl e)
         | Inr df_features \<Rightarrow>
             (case preferences_scaler M (h2 ! df_features) of
                Inl e \<Rightarrow>
                  ([(Preference, Encode), (Preference, Align), (Preference, Scale)], Inl e)
              | Inr df_scaled \<Rightarrow>
                  ([(Preference, Encode), (Preference, Align), (Preference, Scale),
                    (Preference, Predict)],
                   (case preferences_kmeans M df_scaled of
                      Inl e \<Rightarrow> Inl e
                    | Inr [] \<Rightarrow> Inl IndexError
                    | Inr (cluster # others) \<Rightarrow> Inr cluster))))"

text \<open>
  \<^verbatim>\<open>
  def predict_sorties_clusters(sorties, models):
      if not sorties:
          return []
      df = pd.DataFrame(sorties)
      sortie_ids = df["id"].tolist() if "id" in df.columns else list(range(len(df)))
      df_processed = prepare_sorties_dataframe(df)
      df_features = ensure_features(df_processed, models["sorties_features"])
      df_scaled = models["sorties_scaler"].transform(df_features)
      clusters = models["sorties_kmeans"].predict(df_scaled)
      result = []
      for i, sortie_id in enumerate(sortie_ids):
          result.append({"id": sortie_id, "cluster": int(clusters[i])})
      return result
  \<close>
\<close>

datatype item = Item (item_id: cell) (cluster: int)

fun build_result :: "nat \<Rightarrow> cell list \<Rightarrow> int list \<Rightarrow> py_error + item list" where
  "build_result i [] clusters = Inr []"
| "build_result i (sortie_id # rest) clusters =
     (if i < length clusters
      then (case build_result (Suc i) rest clusters of
              Inl e \<Rightarrow> Inl e
            | Inr result \<Rightarrow> Inr (Item sortie_id (clusters ! i) # result))
      else Inl IndexError)"

definition sortie_ids_of :: "table \<Rightarrow> cell list" where
  "sortie_ids_of df =
     (if has_col df ''id'' then series df ''id'' else map (\<lambda>i. CInt (int i)) [0..<nrows df])"

definition predict_sorties_clusters ::
  "lib \<Rightarrow> 'm models \<Rightarrow> raw_record list \<Rightarrow> event list \<times> (py_error + item list)" where
  "predict_sorties_clusters L M sorties =
     (if sorties = [] then ([], Inr [])
      else
        (let df = DataFrame sorties;
             sortie_ids = sortie_ids_of df;
             h0 = [df];
             (h1, df_processed) = prepare_sorties_dataframe L h0 0;
             (h2, res) = ensure_features h1 df_processed (sorties_features M)
         in case res of
              Inl e \<Rightarrow> ([(Outing, Encode), (Outing, Align)], Inl e)
            | Inr df_features \<Rightarrow>
                (case sorties_scaler M (h2 ! df_features) of
                   Inl e \<Rightarrow> ([(Outing, Encode), (Outing, Align), (Outing, Scale)], Inl e)
                 | Inr df_scaled \<Rightarrow>
                     ([(Outing, Encode), (Outing, Align), (Outing, Scale), (Outing, Predict)],
                      (case sorties_kmeans M df_scaled of
                         Inl e \<Rightarrow> Inl e
                       | Inr clusters \<Rightarrow> build_result 0 sortie_ids clusters)))))"

text \<open>
  The part of \<open>main\<close> that computes the result, on a request whose two fields are a
  record and a list of records:
  \<^verbatim>\<open>
  user_cluster = predict_user_cluster(data["userPreferences"], models)
  sorties_with_clusters = predict_sorties_clusters(data["sorties"], models)
  matched_sortie_ids = [item["id"] for item in sorties_with_clusters
                        if item["cluster"] == user_cluster]
  result = {"userCluster": user_cluster,
            "sortiesWithClusters": sorties_with_clusters,
            "matchedSortieIds": matched_sortie_ids}
  \<close>
\<close>

datatype match_result = MatchResult
  (userCluster: int)
  (sortiesWithClusters: "item list")
  (matchedSortieIds: "cell list")

definition match ::
  "lib \<Rightarrow> 'm models \<Rightarrow> raw_record \<Rightarrow> raw_record list
     \<Rightarrow> event list \<times> (py_error + match_result)" where
  "match L M user_prefs sorties =
     (case predict_user_cluster L M user_prefs of
        (ev1, Inl e) \<Rightarrow> (ev1, Inl e)
      | (ev1, Inr user_cluster) \<Rightarrow>
          (case predict_sorties_clusters L M sorties of
             (ev2, Inl e) \<Rightarrow> (ev1 @ ev2, Inl e)
           | (ev2, Inr sorties_with_clusters) \<Rightarrow>
               (ev1 @ ev2,
                Inr (MatchResult user_cluster sorties_with_clusters
                       (map item_id
                          (filter (\<lambda>it. cluster it = user_cluster) sorties_with_clusters))))))"

text \<open>
  The gateway part of \<open>main\<close>. The payload is a JSON value; \<open>json.loads\<close> is a
  parameter (\<open>Inl\<close> carries the text of the \<open>JSONDecodeError\<close>), and so are the
  outcome of \<open>load_models\<close> and the computation that follows the shape checks (\<open>Inl\<close>
  carries what the inner handlers printed and the text of the exception, \<open>Inr\<close> the line
  \<open>json.dumps(result)\<close>). \<open>sys.exit\<close> raises \<open>SystemExit\<close>, which the final
  \<open>except Exception\<close> does not catch.
\<close>

datatype json =
    JNull
  | JBool bool
  | JInt int
  | JFloat real
  | JStr string
  | JArr "json list"
  | JObj "(string \<times> json) list"

datatype diag = Msg string | Traceback

datatype outcome = Outcome (stdout: "string list") (stderr: "diag list") (exit_code: int)

text \<open>\<open>key in data\<close>: keys of an object, elements of an array, substrings of a string;
  \<open>TypeError\<close> on anything else.\<close>

fun is_infix :: "string \<Rightarrow> string \<Rightarrow> bool" where
  "is_infix k [] = (k = [])"
| "is_infix k (c # cs) = (take (length k) (c # cs) = k \<or> is_infix k cs)"

fun py_in :: "string \<Rightarrow> json \<Rightarrow> string + bool" where
  "py_in key (JObj kvs) = Inr (key \<in> set (map fst kvs))"
| "py_in key (JArr xs) = Inr (JStr key \<in> set xs)"
| "py_in key (JStr s) = Inr (is_infix key s)"
| "py_in key v = Inl ''argument is not iterable''"

definition msg_models :: "string \<Rightarrow> string" where
  "msg_models e =
     ''Erreur lors du chargement des mod'' @ [CHR 0xC3, CHR 0xA8] @ ''les: '' @ e"

definition msg_empty :: string where
  "msg_empty =
     ''Erreur: aucune donn'' @ [CHR 0xC3, CHR 0xA9] @ ''e re'' @ [CHR 0xC3, CHR 0xA7]
       @ ''ue sur stdin''"

definition msg_json :: "string \<Rightarrow> string" where
  "msg_json e = ''Erreur: JSON invalide - '' @ e"

definition msg_no_prefs :: string where
  "msg_no_prefs =
     ''Erreur: '' @ [CHR 0x27] @ ''userPreferences'' @ [CHR 0x27] @ '' manquant dans les donn''
       @ [CHR 0xC3, CHR 0xA9] @ ''es''"

definition msg_no_sorties :: string where
  "msg_no_sorties =
     ''Erreur: '' @ [CHR 0x27] @ ''sorties'' @ [CHR 0x27] @ '' manquant dans les donn''
       @ [CHR 0xC3, CHR 0xA9] @ ''es''"

definition msg_unhandled :: "string \<Rightarrow> string" where
  "msg_unhandled e =
     ''Erreur non g'' @ [CHR 0xC3, CHR 0xA9] @ ''r'' @ [CHR 0xC3, CHR 0xA9] @ ''e: '' @ e"

definition unhandled :: "diag list \<Rightarrow> string \<Rightarrow> outcome" where
  "unhandled printed e = Outcome [] (printed @ [Msg (msg_unhandled e), Traceback]) 1"

definition main ::
  "(string + 'M) \<Rightarrow> (string \<Rightarrow> string + json)
     \<Rightarrow> ('M \<Rightarrow> json \<Rightarrow> (diag list \<times> string) + string) \<Rightarrow> string \<Rightarrow> outcome" where
  "main load_models json_loads compute input_data =
     (case load_models of
        Inl e \<Rightarrow> Outcome [] [Msg (msg_models e)] 1
      | Inr models \<Rightarrow>
          if input_data = [] then Outcome [] [Msg msg_empty] 1
          else
            (case json_loads input_data of
               Inl e \<Rightarrow> Outcome [] [Msg (msg_json e)] 1
             | Inr data \<Rightarrow>
                 (case py_in ''userPreferences'' data of
                    Inl e \<Rightarrow> unhandled [] e
                  | Inr False \<Rightarrow> Outcome [] [Msg msg_no_prefs] 1
                  | Inr True \<Rightarrow>
                      (case py_in ''sorties'' data of
                         Inl e \<Rightarrow> unhandled [] e
                       | Inr False \<Rightarrow> Outcome [] [Msg msg_no_sorties] 1
                       | Inr True \<Rightarrow>
                           (case compute models data of
                              Inl (printed, e) \<Rightarrow> unhandled printed e
                            | Inr line \<Rightarrow> Outcome [line] [] 0)))))"

section \<open>Concrete inputs\<close>

text \<open>A JSON reader for three concrete inputs.\<close>

definition loads0 :: "string \<Rightarrow> string + json" where
  "loads0 s =
     (if s = ''{}'' then Inr (JObj [])
      else if s = ''{p}'' then Inr (JObj [(''userPreferences'', JObj [])])
      else Inl ''Expecting value'')"

text \<open>Concrete library functions and concrete models, for running the definitions.\<close>

definition L0 :: lib where
  "L0 = Lib (\<lambda>x. ''0.0'') (\<lambda>k. (DFloat, map (\<lambda>v. CNaN) (cvals k))) (\<lambda>s. None)"

definition M0 :: "table models" where
  "M0 = Models (\<lambda>t. Inr t) (\<lambda>m. Inr (replicate (nrows m) 0)) []
               (\<lambda>t. Inr t) (\<lambda>m. Inr (replicate (nrows m) 0)) []"

section \<open>Notions used to state the properties\<close>


text \<open>A column restricted to the rows a filter keeps.\<close>

definition filter_cells :: "bool list \<Rightarrow> column \<Rightarrow> column" where
  "filter_cells keep k = Column (cname k) (cdtype k) (map snd (filter fst (zip keep (cvals k))))"

text \<open>What the sweep does to the columns of one name.\<close>

definition swept :: "column list \<Rightarrow> column list" where
  "swept ks =
     (case ks of
        [k] \<Rightarrow> if is_numeric_dtype (cdtype k)
               then [Column (cname k) (cdtype k) (map fillna0 (cvals k))] else [k]
      | _ \<Rightarrow> ks)"

text \<open>A name that begins with a given prefix.\<close>

definition starts_with :: "string \<Rightarrow> string \<Rightarrow> bool" where
  "starts_with p n = (take (length p) n = p)"


definition one_hot_foreign :: "string list \<Rightarrow> string \<Rightarrow> bool" where
  "one_hot_foreign cs n = list_all (\<lambda>c. n \<noteq> c \<and> \<not> starts_with (c @ ''_'') n) cs"





text \<open>A well-formed table: every column has one cell per row.\<close>

definition wf_table :: "table \<Rightarrow> bool" where
  "wf_table t = list_all (\<lambda>k. length (cvals k) = nrows t) (cols t)"

text \<open>The cells of one day column after the rows from \<open>idx\<close> on have been marked.\<close>

fun mark_cells :: "string \<Rightarrow> nat \<Rightarrow> string list list \<Rightarrow> cell list \<Rightarrow> cell list" where
  "mark_cells J idx [] cells = cells"
| "mark_cells J idx (d # ds) cells =
     mark_cells J (Suc idx) ds (if J \<in> set d then cells[idx := CInt 1] else cells)"

text \<open>The table the availability field is read from.\<close>

definition pref_before_days :: "lib \<Rightarrow> table \<Rightarrow> table" where
  "pref_before_days L t =
     fold (bool_col (float_repr L)) PREF_BOOL_COLS
       (fold (one_hot (float_repr L) ''UNKNOWN'') PREF_ONE_HOT_COLS
          (onboarding_filter (float_repr L) t))"


section \<open>Properties of the feature aligner\<close>

lemma ensure_loop_length: "length (ensure_loop h df fs) = length h"
  by (induction fs arbitrary: h) auto

lemma ensure_loop_pure:
  "df < length h \<Longrightarrow> ensure_loop h df fs = h[df := add_missing (h ! df) fs]"
  by (induction fs arbitrary: h) auto

lemma nrows_setitem: "nrows (setitem t c d vs) = nrows t"
  by (simp add: setitem_def)

lemma nrows_add_missing: "nrows (add_missing t fs) = nrows t"
  by (induction fs arbitrary: t) (auto simp: setitem_scalar_def nrows_setitem)

lemma has_col_named: "has_col t c \<longleftrightarrow> cols_named t c \<noteq> []"
  by (auto simp: has_col_def columns_def cols_named_def filter_empty_conv)

lemma cols_named_setitem_new:
  "\<not> has_col t c \<Longrightarrow>
   cols_named (setitem t c d vs) f = (if f = c then [Column c d vs] else cols_named t f)"
  by (auto simp: setitem_def cols_named_def has_col_def columns_def filter_empty_conv)

lemma cols_named_add_missing:
  "cols_named (add_missing t fs) f =
     (if has_col t f then cols_named t f
      else if f \<in> set fs then [zero_column (nrows t) f] else [])"
proof (induction fs arbitrary: t)
  case Nil
  then show ?case by (simp add: has_col_named)
next
  case (Cons a fs)
  show ?case
  proof (cases "has_col t a")
    case True
    then show ?thesis using Cons.IH [of t] by auto
  next
    case False
    then show ?thesis
      using Cons.IH [of "setitem_scalar t a DInt (CInt 0)"]
      by (auto simp: setitem_scalar_def cols_named_setitem_new has_col_named nrows_setitem
          zero_column_def)
  qed
qed

lemma cols_add_missing_prefix:
  "take (length (cols t)) (cols (add_missing t fs)) = cols t"
proof (induction fs arbitrary: t)
  case Nil
  then show ?case by simp
next
  case (Cons a fs)
  show ?case
  proof (cases "has_col t a")
    case True
    then show ?thesis using Cons.IH [of t] by simp
  next
    case False
    let ?t = "setitem_scalar t a DInt (CInt 0)"
    have c: "cols ?t = cols t @ [Column a DInt (replicate (nrows t) (CInt 0))]"
      using False by (simp add: setitem_scalar_def setitem_def)
    have "take (length (cols t)) (cols (add_missing ?t fs))
        = take (length (cols t)) (take (length (cols ?t)) (cols (add_missing ?t fs)))"
      by (simp add: c min_def)
    also have "\<dots> = take (length (cols t)) (cols ?t)"
      by (simp only: Cons.IH)
    also have "\<dots> = cols t" by (simp add: c)
    finally show ?thesis using False by simp
  qed
qed

lemma getitem_list_add_missing:
  "getitem_list (add_missing t fs) fs =
     Inr (Table (nrows t)
       (concat (map (\<lambda>f. if has_col t f then cols_named t f else [zero_column (nrows t) f]) fs)))"
proof -
  have "filter (\<lambda>f. \<not> has_col (add_missing t fs) f) fs = []"
    by (auto simp: filter_empty_conv has_col_named cols_named_add_missing)
  moreover have "map (cols_named (add_missing t fs)) fs
      = map (\<lambda>f. if has_col t f then cols_named t f else [zero_column (nrows t) f]) fs"
    by (rule map_cong) (auto simp: cols_named_add_missing)
  ultimately show ?thesis
    unfolding getitem_list_def by (simp only: nrows_add_missing list.case)
qed

lemma ensure_features_eq:
  assumes "df < length h"
  shows "ensure_features h df fs =
     (h[df := add_missing (h ! df) fs] @
        [Table (nrows (h ! df))
          (concat (map (\<lambda>f. if has_col (h ! df) f then cols_named (h ! df) f
                             else [zero_column (nrows (h ! df)) f]) fs))],
      Inr (length h))"
  using assms
  by (simp add: ensure_features_def ensure_loop_pure getitem_list_add_missing)


lemma align_cols_name: "k \<in> set (align_cols t f) \<Longrightarrow> cname k = f"
  by (auto simp: align_cols_def cols_named_def zero_column_def split: if_splits)

lemma align_cols_nonempty: "align_cols t f \<noteq> []"
  by (simp add: align_cols_def has_col_named)

lemma ensure_features_align_cols:
  assumes "df < length h"
  shows "ensure_features h df fs =
     (h[df := add_missing (h ! df) fs] @
        [Table (nrows (h ! df)) (concat (map (align_cols (h ! df)) fs))], Inr (length h))"
proof -
  have "(\<lambda>f. if has_col (h ! df) f then cols_named (h ! df) f
             else [zero_column (nrows (h ! df)) f]) = align_cols (h ! df)"
    by (rule ext) (simp add: align_cols_def)
  then show ?thesis using ensure_features_eq [OF assms, of fs] by simp
qed

lemma filter_concat_distinct:
  assumes "distinct fs" and "f \<in> set fs" and "\<And>f' k. k \<in> set (g f') \<Longrightarrow> cname k = f'"
  shows "filter (\<lambda>k. cname k = f) (concat (map g fs)) = g f"
  using assms(1,2)
proof (induction fs)
  case Nil
  then show ?case by simp
next
  case (Cons a fs)
  have other: "filter (\<lambda>k. cname k = f) (g f') = []" if "f' \<noteq> f" for f'
    using assms(3) that by (auto simp: filter_empty_conv)
  have same: "filter (\<lambda>k. cname k = f) (g f) = g f"
    using assms(3) by (auto simp: filter_id_conv)
  have rest: "filter (\<lambda>k. cname k = f) (concat (map g fs)) = []" if "f \<notin> set fs"
    using that assms(3) by (auto simp: filter_empty_conv)
  show ?case
  proof (cases "a = f")
    case True
    then have "f \<notin> set fs" using Cons.prems by simp
    then show ?thesis using True same rest by simp
  next
    case False
    then have "f \<in> set fs" using Cons.prems by simp
    moreover have "distinct fs" using Cons.prems by simp
    ultimately show ?thesis using Cons.IH other [OF False] by simp
  qed
qed

lemma align_cols_fixed:
  assumes "distinct fs" and "f \<in> set fs"
  shows "align_cols (Table n (concat (map (align_cols t) fs))) f = align_cols t f"
proof -
  let ?t1 = "Table n (concat (map (align_cols t) fs))"
  have n: "cols_named ?t1 f = align_cols t f"
    unfolding cols_named_def table.sel
    by (rule filter_concat_distinct [OF assms]) (rule align_cols_name)
  then have "has_col ?t1 f" by (simp add: has_col_named align_cols_nonempty)
  then show ?thesis using n by (simp add: align_cols_def)
qed

text \<open>
  Claim C2, as amended. For every table in which no required name labels more than one
  column, and every ordered list of required names, \<open>ensure_features\<close> returns a table
  whose columns are exactly the required names in the given order: a required name
  absent from the input is a column of zeros, a present one is the input's column, and
  every other input column is dropped. (A name that labels several input columns
  selects all of them, so the result then has more columns than names.)
\<close>

theorem ensure_features_columns:
  assumes "df < length h"
    and "\<forall>f\<in>set fs. length (cols_named (h ! df) f) \<le> 1"
  shows "\<exists>h' r. ensure_features h df fs = (h', Inr r) \<and> r < length h' \<and>
           nrows (h' ! r) = nrows (h ! df) \<and>
           columns (h' ! r) = fs \<and>
           cols (h' ! r) =
             map (\<lambda>f. case cols_named (h ! df) f of
                         [] \<Rightarrow> zero_column (nrows (h ! df)) f
                       | k # ks \<Rightarrow> k) fs"
proof -
  let ?t = "h ! df"
  let ?pick = "\<lambda>f. case cols_named ?t f of [] \<Rightarrow> zero_column (nrows ?t) f | k # ks \<Rightarrow> k"
  have one: "align_cols ?t f = [?pick f]" if "f \<in> set fs" for f
  proof (cases "cols_named ?t f")
    case Nil
    then show ?thesis by (simp add: align_cols_def has_col_named)
  next
    case (Cons k ks)
    moreover have "length (cols_named ?t f) \<le> 1" using assms(2) that by blast
    ultimately have "ks = []" by simp
    then show ?thesis using Cons by (simp add: align_cols_def has_col_named)
  qed
  have m: "map (align_cols ?t) fs = map (\<lambda>f. [?pick f]) fs"
    by (rule map_cong) (auto simp: one)
  have c: "concat (map (align_cols ?t) fs) = map ?pick fs"
    unfolding m by (rule concat_map_singleton)
  have name: "cname (?pick f) = f" for f
    by (auto simp: cols_named_def zero_column_def filter_eq_Cons_iff split: list.splits)
  have "columns (Table (nrows ?t) (map ?pick fs)) = fs"
    unfolding columns_def table.sel map_map comp_def by (simp add: name)
  then show ?thesis
    using ensure_features_align_cols [OF assms(1), of fs] c by (simp add: nth_append)
qed

text \<open>
  Claim C3, as amended. \<open>ensure_features\<close> never raises, whatever the columns of the
  table and whatever the required list; and for a required list without repeated names
  aligning the aligned table again returns a table equal to it. (With a repeated name
  the second pass selects each of the repeated columns once per occurrence.)
\<close>

theorem ensure_features_idempotent_total:
  assumes "df < length h"
  shows "\<exists>h1 r1. ensure_features h df fs = (h1, Inr r1) \<and> r1 < length h1 \<and>
           (distinct fs \<longrightarrow>
              (\<exists>h2 r2. ensure_features h1 r1 fs = (h2, Inr r2) \<and> r2 < length h2 \<and>
                        h2 ! r2 = h1 ! r1))"
proof -
  let ?t = "h ! df"
  let ?t1 = "Table (nrows ?t) (concat (map (align_cols ?t) fs))"
  let ?h1 = "h[df := add_missing ?t fs] @ [?t1]"
  have first: "ensure_features h df fs = (?h1, Inr (length h))"
    by (rule ensure_features_align_cols [OF assms])
  have r1: "length h < length ?h1" by simp
  have at: "?h1 ! length h = ?t1" by (simp add: nth_append)
  have second: "ensure_features ?h1 (length h) fs =
      (?h1[length h := add_missing ?t1 fs] @
         [Table (nrows ?t1) (concat (map (align_cols ?t1) fs))], Inr (length ?h1))"
    using ensure_features_align_cols [OF r1, of fs] by (simp only: at)
  have same: "Table (nrows ?t1) (concat (map (align_cols ?t1) fs)) = ?t1" if "distinct fs"
  proof -
    have m: "map (align_cols ?t1) fs = map (align_cols ?t) fs"
      by (rule map_cong) (auto simp: align_cols_fixed [OF that])
    show ?thesis unfolding m by (simp only: table.sel)
  qed
  show ?thesis
    using first r1 second same at by (auto simp: nth_append)
qed


theorem ensure_features_columns_witness:
  "ensure_features
     [Table 1 [Column ''b'' DInt [CInt 5], Column ''a'' DFloat [CFloat 1]]] 0 [''a'', ''c'']
   = ([Table 1 [Column ''b'' DInt [CInt 5], Column ''a'' DFloat [CFloat 1],
                Column ''c'' DInt [CInt 0]],
       Table 1 [Column ''a'' DFloat [CFloat 1], Column ''c'' DInt [CInt 0]]], Inr 1)
   \<and> columns (Table 1 [Column ''a'' DFloat [CFloat 1], Column ''c'' DInt [CInt 0]])
       = [''a'', ''c'']"
  using ensure_features_columns
    [of 0 "[Table 1 [Column ''b'' DInt [CInt 5], Column ''a'' DFloat [CFloat 1]]]"
        "[''a'', ''c'']"]
  by (auto simp: cols_named_def ensure_features_def getitem_list_def has_col_def columns_def
      setitem_scalar_def setitem_def zero_column_def)

theorem ensure_features_columns_counterexample:
  "aligned [Table 1 [Column ''a'' DInt [CInt 1], Column ''a'' DInt [CInt 2]]] 0 [''a'']
     = Some (Table 1 [Column ''a'' DInt [CInt 1], Column ''a'' DInt [CInt 2]])
   \<and> columns (Table 1 [Column ''a'' DInt [CInt 1], Column ''a'' DInt [CInt 2]]) \<noteq> [''a'']"
  by (simp add: aligned_def ensure_features_def getitem_list_def has_col_def columns_def
      cols_named_def)

theorem ensure_features_idempotent_witness:
  "ensure_features [Table 1 [Column ''b'' DInt [CInt 5]]] 0 [''a'', ''b'']
     = ([Table 1 [Column ''b'' DInt [CInt 5], Column ''a'' DInt [CInt 0]],
         Table 1 [Column ''a'' DInt [CInt 0], Column ''b'' DInt [CInt 5]]], Inr 1)
   \<and> aligned [Table 1 [Column ''b'' DInt [CInt 5], Column ''a'' DInt [CInt 0]],
               Table 1 [Column ''a'' DInt [CInt 0], Column ''b'' DInt [CInt 5]]] 1 [''a'', ''b'']
     = Some (Table 1 [Column ''a'' DInt [CInt 0], Column ''b'' DInt [CInt 5]])"
  using ensure_features_idempotent_total
    [of 0 "[Table 1 [Column ''b'' DInt [CInt 5]]]" "[''a'', ''b'']"]
  by (auto simp: aligned_def cols_named_def ensure_features_def getitem_list_def has_col_def
      columns_def setitem_scalar_def setitem_def)

theorem ensure_features_idempotent_counterexample:
  "aligned [Table 1 []] 0 [''a'', ''a'']
     = Some (Table 1 [Column ''a'' DInt [CInt 0], Column ''a'' DInt [CInt 0]])
   \<and> aligned [Table 1 [Column ''a'' DInt [CInt 0], Column ''a'' DInt [CInt 0]]] 0 [''a'', ''a'']
     = Some (Table 1 [Column ''a'' DInt [CInt 0], Column ''a'' DInt [CInt 0],
                      Column ''a'' DInt [CInt 0], Column ''a'' DInt [CInt 0]])
   \<and> Table 1 [Column ''a'' DInt [CInt 0], Column ''a'' DInt [CInt 0],
               Column ''a'' DInt [CInt 0], Column ''a'' DInt [CInt 0]]
     \<noteq> Table 1 [Column ''a'' DInt [CInt 0], Column ''a'' DInt [CInt 0]]"
  by (simp add: aligned_def ensure_features_def getitem_list_def has_col_def columns_def
      cols_named_def setitem_scalar_def setitem_def)

section \<open>The gateway\<close>

lemma msgs_distinct:
  "distinct [msg_empty, msg_json e, msg_no_prefs, msg_no_sorties]"
  by (simp add: msg_empty_def msg_json_def msg_no_prefs_def msg_no_sorties_def)

text \<open>
  Claim C8. With the models loaded, empty standard input, malformed JSON, a payload
  without the key \<open>userPreferences\<close> and a payload without the key \<open>sorties\<close> are
  reported each with its own message on standard error; \<open>userPreferences\<close> is checked
  first (its message is the one printed whether or not \<open>sorties\<close> is there). In each
  of the four cases the exit status is 1 and nothing is written to standard output. The
  four messages are pairwise different, whatever the text of the JSON error.
\<close>

theorem main_input_shape_errors:
  "main (Inr M) json_loads compute [] = Outcome [] [Msg msg_empty] 1 \<and>
   (input \<noteq> [] \<and> json_loads input = Inl e \<longrightarrow>
      main (Inr M) json_loads compute input = Outcome [] [Msg (msg_json e)] 1) \<and>
   (input \<noteq> [] \<and> json_loads input = Inr (JObj kvs) \<and>
    ''userPreferences'' \<notin> set (map fst kvs) \<longrightarrow>
      main (Inr M) json_loads compute input = Outcome [] [Msg msg_no_prefs] 1) \<and>
   (input \<noteq> [] \<and> json_loads input = Inr (JObj kvs) \<and>
    ''userPreferences'' \<in> set (map fst kvs) \<and> ''sorties'' \<notin> set (map fst kvs) \<longrightarrow>
      main (Inr M) json_loads compute input = Outcome [] [Msg msg_no_sorties] 1) \<and>
   distinct [msg_empty, msg_json e, msg_no_prefs, msg_no_sorties]"
  using msgs_distinct [of e] by (auto simp: main_def)

theorem main_input_shape_errors_witness:
  "main (Inr ()) loads0 (\<lambda>m d. Inr ''{}'') ''x'' = Outcome [] [Msg (msg_json ''Expecting value'')] 1 \<and>
   main (Inr ()) loads0 (\<lambda>m d. Inr ''{}'') ''{}'' = Outcome [] [Msg msg_no_prefs] 1 \<and>
   main (Inr ()) loads0 (\<lambda>m d. Inr ''{}'') ''{p}'' = Outcome [] [Msg msg_no_sorties] 1"
  using main_input_shape_errors [of "()" loads0 "\<lambda>m d. Inr ''{}''" "''x''" "''Expecting value''" "[]"]
    main_input_shape_errors [of "()" loads0 "\<lambda>m d. Inr ''{}''" "''{}''" "''e''" "[]"]
    main_input_shape_errors [of "()" loads0 "\<lambda>m d. Inr ''{}''" "''{p}''" "''e''"
      "[(''userPreferences'', JObj [])]"]
  by (simp add: loads0_def)

section \<open>The match\<close>

lemma predict_user_cluster_events:
  "set (fst (predict_user_cluster L M prefs)) \<subseteq> {Preference} \<times> UNIV"
  by (auto simp: predict_user_cluster_def Let_def split: prod.splits sum.splits list.splits)

lemma predict_sorties_clusters_empty: "predict_sorties_clusters L M [] = ([], Inr [])"
  by (simp add: predict_sorties_clusters_def)

text \<open>
  Claim C4. For a request whose list of outings is empty, \<open>predict_sorties_clusters\<close>
  returns the empty list at once, without entering any stage; whenever the user's
  cluster is predicted, \<open>match\<close> returns a result with that cluster, an empty
  \<open>sortiesWithClusters\<close> and an empty \<open>matchedSortieIds\<close>; and no outing-side stage
  (encoding, alignment, scaling, prediction) is among the stages the request went through.
\<close>

theorem match_empty_outings:
  "predict_sorties_clusters L M [] = ([], Inr []) \<and>
   (\<forall>ev uc. predict_user_cluster L M prefs = (ev, Inr uc) \<longrightarrow>
      match L M prefs [] = (ev, Inr (MatchResult uc [] []))) \<and>
   (\<forall>st. (Outing, st) \<notin> set (fst (match L M prefs [])))"
proof -
  have ev: "fst (match L M prefs []) = fst (predict_user_cluster L M prefs)"
    by (auto simp: match_def predict_sorties_clusters_empty split: prod.splits sum.splits)
  have "(Outing, st) \<notin> set (fst (predict_user_cluster L M prefs))" for st
    using predict_user_cluster_events [of L M prefs] by auto
  then have no: "\<forall>st. (Outing, st) \<notin> set (fst (match L M prefs []))"
    by (simp only: ev) simp
  have res: "\<forall>ev uc. predict_user_cluster L M prefs = (ev, Inr uc) \<longrightarrow>
      match L M prefs [] = (ev, Inr (MatchResult uc [] []))"
    by (simp add: match_def predict_sorties_clusters_empty)
  show ?thesis using no res predict_sorties_clusters_empty by blast
qed



lemma first_keys_distinct: "distinct (first_keys rs)"
  by (simp add: first_keys_def)

lemma cname_infer:
  "cname (case infer_column vs of (d, ws) \<Rightarrow> Column c d ws) = c"
  by (simp split: prod.splits)

lemma columns_DataFrame: "columns (DataFrame rs) = first_keys rs"
  by (simp add: columns_def DataFrame_def comp_def cname_infer)


lemma length_infer_column: "length (snd (infer_column vs)) = length vs"
  by (simp add: infer_column_def)

text \<open>
  A table built from records has pairwise distinct column names and one cell per row in
  every column: the statements below about the encoders are made for such tables.
\<close>

lemma DataFrame_well_formed: "distinct (columns (DataFrame rs)) \<and> wf_table (DataFrame rs)"
proof -
  have "length (cvals (case infer_column (raw_column rs c) of (d, vs) \<Rightarrow> Column c d vs))
      = length rs" for c
    using length_infer_column [of "raw_column rs c"]
    by (cases "infer_column (raw_column rs c)") (simp add: raw_column_def)
  then have "wf_table (DataFrame rs)"
    by (simp add: wf_table_def DataFrame_def list_all_iff)
  then show ?thesis by (simp add: columns_DataFrame first_keys_distinct)
qed











lemma user_run1:
  "predict_user_cluster L0 M0 [(''level'', CStr ''BEGINNER'')]
   = ([(Preference, Encode), (Preference, Align), (Preference, Scale), (Preference, Predict)],
      Inr 0)"
  by code_simp

theorem match_empty_outings_witness:
  "match L0 M0 [(''level'', CStr ''BEGINNER'')] []
   = ([(Preference, Encode), (Preference, Align), (Preference, Scale), (Preference, Predict)],
      Inr (MatchResult 0 [] []))"
  using match_empty_outings [of L0 M0 "[(''level'', CStr ''BEGINNER'')]"] user_run1
  by simp


section \<open>What each table operation does to the columns of one name\<close>

lemma filter_map_other:
  assumes "n \<noteq> c" and "\<And>k. cname (g k) = c"
  shows "filter (\<lambda>k. cname k = n) (map (\<lambda>k. if cname k = c then g k else k) ks)
       = filter (\<lambda>k. cname k = n) ks"
  using assms by (induction ks) auto

lemma cols_named_setitem_other:
  "n \<noteq> c \<Longrightarrow> cols_named (setitem t c d vs) n = cols_named t n"
  using filter_map_other [of n c "\<lambda>k. Column c d vs" "cols t"]
  by (simp add: setitem_def cols_named_def)

lemma cols_named_setitem_same:
  "cols_named (setitem t c d vs) c =
     replicate (max 1 (length (cols_named t c))) (Column c d vs)"
proof (cases "has_col t c")
  case True
  have "filter (\<lambda>k. cname k = c) (map (\<lambda>k. if cname k = c then Column c d vs else k) ks)
      = replicate (length (filter (\<lambda>k. cname k = c) ks)) (Column c d vs)" for ks
    by (induction ks) auto
  moreover have "cols_named t c \<noteq> []" using True by (simp add: has_col_named)
  then have "max 1 (length (cols_named t c)) = length (cols_named t c)"
    by (cases "cols_named t c") auto
  ultimately show ?thesis using True by (simp add: setitem_def cols_named_def)
next
  case False
  then have "cols_named t c = []" by (simp add: has_col_named)
  then show ?thesis using False by (simp add: cols_named_setitem_new)
qed

lemma cols_named_drop_col:
  "cols_named (drop_col t c) n = (if n = c then [] else cols_named t n)"
  by (auto simp: drop_col_def cols_named_def filter_empty_conv intro: filter_cong)

lemma cols_named_set_at_other:
  "n \<noteq> c \<Longrightarrow> cols_named (set_at t i c v) n = cols_named t n"
  using filter_map_other [of n c "\<lambda>k. Column c (cdtype k) ((cvals k)[i := v])" "cols t"]
  by (simp add: set_at_def cols_named_def)

lemma cols_named_set_at_same:
  "cols_named (set_at t i c v) c =
     map (\<lambda>k. Column c (cdtype k) ((cvals k)[i := v])) (cols_named t c)"
proof -
  have "filter (\<lambda>k. cname k = c)
          (map (\<lambda>k. if cname k = c then Column c (cdtype k) ((cvals k)[i := v]) else k) ks)
      = map (\<lambda>k. Column c (cdtype k) ((cvals k)[i := v])) (filter (\<lambda>k. cname k = c) ks)" for ks
    by (induction ks) auto
  then show ?thesis by (simp add: set_at_def cols_named_def)
qed

lemma cols_named_filter_rows:
  "cols_named (filter_rows keep t) n = map (filter_cells keep) (cols_named t n)"
proof -
  have "filter (\<lambda>k. cname k = n) (map (filter_cells keep) ks)
      = map (filter_cells keep) (filter (\<lambda>k. cname k = n) ks)" for ks
    by (induction ks) (auto simp: filter_cells_def)
  then show ?thesis
    by (simp add: filter_rows_def cols_named_def filter_cells_def [abs_def])
qed

lemma get_dummies_names:
  "k \<in> set (get_dummies c vals) \<Longrightarrow> \<exists>u. cname k = c @ ''_'' @ u"
  by (auto simp: get_dummies_def)

lemma cols_named_one_hot_other:
  assumes "n \<noteq> c" and "\<forall>u. n \<noteq> c @ ''_'' @ u"
  shows "cols_named (one_hot fr fb c t) n = cols_named t n"
proof -
  have "filter (\<lambda>k. cname k = n) (get_dummies c vals) = []" for vals
    using assms(2) get_dummies_names [of _ c vals] by (auto simp: filter_empty_conv)
  then show ?thesis using assms(1)
    by (auto simp: one_hot_def cols_named_def drop_col_def intro: filter_cong)
qed

lemma cols_named_one_hot_self:
  "cols_named (one_hot fr fb c t) c = []"
proof -
  have "filter (\<lambda>k. cname k = c) (get_dummies c vals) = []" for vals
    using get_dummies_names [of _ c vals] by (auto simp: filter_empty_conv)
  moreover have "\<not> has_col t c \<Longrightarrow> filter (\<lambda>k. cname k = c) (cols t) = []"
    using has_col_named [of t c] by (simp add: cols_named_def)
  ultimately show ?thesis
    by (simp add: one_hot_def cols_named_def drop_col_def)
qed


lemma cols_named_bool_col_other:
  "n \<noteq> c \<Longrightarrow> cols_named (bool_col fr c t) n = cols_named t n"
  by (simp add: bool_col_def cols_named_setitem_other)

lemma cols_named_numeric_col_other:
  "n \<noteq> c \<Longrightarrow> cols_named (numeric_col L c t) n = cols_named t n"
  by (simp add: numeric_col_def cols_named_setitem_other split: prod.splits)


lemma cols_named_time_col_other:
  "n \<noteq> src \<Longrightarrow> n \<noteq> dst \<Longrightarrow> cols_named (time_col fr src dst t) n = cols_named t n"
  by (simp add: time_col_def cols_named_drop_col cols_named_setitem_other)

lemma cols_named_remove_col:
  "cols_named (remove_col c t) n = (if n = c then [] else cols_named t n)"
  by (auto simp: remove_col_def cols_named_drop_col has_col_named)


section \<open>Writes in place and copies\<close>

text \<open>
  Claim C10. \<open>ensure_features\<close> writes into the table it is given: when it returns, the
  caller's table holds its former columns, unchanged and in the same positions, followed
  by one column of zeros for every required name it lacked (and has a column for a name
  exactly when it had one before or the name is required); the returned table is
  another object and no other table is touched. The two encoders work on a copy: the
  table they return is a new object and every table that existed before, the argument
  included, is unchanged.
\<close>

theorem ensure_features_writes_encoders_copy:
  assumes "df < length h"
  shows "(\<exists>h' r. ensure_features h df fs = (h', Inr r) \<and> r \<noteq> df \<and> r < length h' \<and>
            nrows (h' ! df) = nrows (h ! df) \<and>
            take (length (cols (h ! df))) (cols (h' ! df)) = cols (h ! df) \<and>
            (\<forall>f. cols_named (h' ! df) f =
                   (if has_col (h ! df) f then cols_named (h ! df) f
                    else if f \<in> set fs then [zero_column (nrows (h ! df)) f] else [])) \<and>
            (\<forall>i<length h. i \<noteq> df \<longrightarrow> h' ! i = h ! i)) \<and>
         (\<exists>h' r. prepare_preferences_dataframe L h df = (h', r) \<and> r = length h \<and>
            (\<forall>i<length h. h' ! i = h ! i)) \<and>
         (\<exists>h' r. prepare_sorties_dataframe L h df = (h', r) \<and> r = length h \<and>
            (\<forall>i<length h. h' ! i = h ! i))"
proof -
  let ?h' = "h[df := add_missing (h ! df) fs] @
     [Table (nrows (h ! df)) (concat (map (align_cols (h ! df)) fs))]"
  have e: "ensure_features h df fs = (?h', Inr (length h))"
    by (rule ensure_features_align_cols [OF assms])
  have at: "?h' ! df = add_missing (h ! df) fs"
    using assms by (simp add: nth_append)
  have others: "\<forall>i<length h. i \<noteq> df \<longrightarrow> ?h' ! i = h ! i"
    by (simp add: nth_append)
  have n: "nrows (?h' ! df) = nrows (h ! df)"
    by (simp only: at nrows_add_missing)
  have pre: "take (length (cols (h ! df))) (cols (?h' ! df)) = cols (h ! df)"
    by (simp only: at cols_add_missing_prefix)
  have named: "\<forall>f. cols_named (?h' ! df) f =
                   (if has_col (h ! df) f then cols_named (h ! df) f
                    else if f \<in> set fs then [zero_column (nrows (h ! df)) f] else [])"
    by (simp only: at cols_named_add_missing) simp
  have r: "length h \<noteq> df \<and> length h < length ?h'" using assms by simp
  have first: "\<exists>h' r. ensure_features h df fs = (h', Inr r) \<and> r \<noteq> df \<and> r < length h' \<and>
            nrows (h' ! df) = nrows (h ! df) \<and>
            take (length (cols (h ! df))) (cols (h' ! df)) = cols (h ! df) \<and>
            (\<forall>f. cols_named (h' ! df) f =
                   (if has_col (h ! df) f then cols_named (h ! df) f
                    else if f \<in> set fs then [zero_column (nrows (h ! df)) f] else [])) \<and>
            (\<forall>i<length h. i \<noteq> df \<longrightarrow> h' ! i = h ! i)"
    using e r n pre named others by blast
  show ?thesis
    using first
    by (simp add: prepare_preferences_dataframe_def prepare_sorties_dataframe_def nth_append)
qed

theorem ensure_features_writes_encoders_copy_witness:
  "ensure_features [Table 1 [Column ''b'' DInt [CInt 5]]] 0 [''a'', ''b'']
     = ([Table 1 [Column ''b'' DInt [CInt 5], Column ''a'' DInt [CInt 0]],
         Table 1 [Column ''a'' DInt [CInt 0], Column ''b'' DInt [CInt 5]]], Inr 1) \<and>
   fst (prepare_sorties_dataframe L0 [Table 1 [Column ''b'' DInt [CInt 5]]] 0) ! 0
     = Table 1 [Column ''b'' DInt [CInt 5]]"
  using ensure_features_writes_encoders_copy
    [of 0 "[Table 1 [Column ''b'' DInt [CInt 5]]]" "[''a'', ''b'']" L0]
  by (auto simp: cols_named_def ensure_features_def getitem_list_def has_col_def
      columns_def setitem_scalar_def setitem_def)

section \<open>The sweep, and the names an encoder leaves alone\<close>

lemma fillna0_idem: "fillna0 (fillna0 v) = fillna0 v"
  by (simp add: fillna0_def isna_def)



lemma swept_idem: "swept (swept ks) = swept ks"
  by (auto simp: swept_def fillna0_idem split: list.splits)

lemma swept_Nil: "swept [] = []"
  by (simp add: swept_def)


lemma cols_named_name: "k \<in> set (cols_named t n) \<Longrightarrow> cname k = n"
  by (simp add: cols_named_def)

lemma cols_named_sweep_step:
  "cols_named (sweep_step c t) n = (if n = c then swept (cols_named t c) else cols_named t n)"
proof (cases "cols_named t c")
  case Nil
  then show ?thesis by (simp add: sweep_step_def swept_def)
next
  case (Cons k ks)
  show ?thesis
  proof (cases ks)
    case Nil
    have nm: "cname k = c" using Cons cols_named_name [of k t c] by simp
    show ?thesis
      using Cons Nil nm
      by (auto simp: sweep_step_def swept_def cols_named_setitem_other
          cols_named_setitem_same)
  next
    case (Cons k' ks')
    then show ?thesis using \<open>cols_named t c = k # ks\<close>
      by (simp add: sweep_step_def swept_def)
  qed
qed

lemma cols_named_fold_sweep:
  "cols_named (fold sweep_step ns t) n =
     (if n \<in> set ns then swept (cols_named t n) else cols_named t n)"
  by (induction ns arbitrary: t) (auto simp: cols_named_sweep_step swept_idem)

lemma cols_named_nan_sweep: "cols_named (nan_sweep t) n = swept (cols_named t n)"
proof (cases "n \<in> set (columns t)")
  case True
  then show ?thesis by (simp add: nan_sweep_def cols_named_fold_sweep)
next
  case False
  then have "cols_named t n = []" using has_col_named [of t n] by (simp add: has_col_def)
  then show ?thesis using False by (simp add: nan_sweep_def cols_named_fold_sweep swept_Nil)
qed


lemma starts_with_iff: "starts_with p n \<longleftrightarrow> (\<exists>u. n = p @ u)"
  by (metis append_eq_conv_conj starts_with_def)

lemma one_hot_foreign_iff:
  "one_hot_foreign cs n \<longleftrightarrow> (\<forall>c\<in>set cs. n \<noteq> c \<and> (\<forall>u. n \<noteq> c @ ''_'' @ u))"
  by (auto simp: one_hot_foreign_def list_all_iff starts_with_iff)

lemma cols_named_fold_one_hot:
  "one_hot_foreign cs n \<Longrightarrow> cols_named (fold (one_hot fr fb) cs t) n = cols_named t n"
proof (induction cs arbitrary: t)
  case Nil
  then show ?case by simp
next
  case (Cons c cs)
  then have a: "n \<noteq> c" "\<forall>u. n \<noteq> c @ ''_'' @ u" and r: "one_hot_foreign cs n"
    by (auto simp: one_hot_foreign_iff)
  show ?case using Cons.IH [OF r] cols_named_one_hot_other [OF a] by simp
qed

lemma cols_named_fold_bool_col:
  "n \<notin> set cs \<Longrightarrow> cols_named (fold (bool_col fr) cs t) n = cols_named t n"
  by (induction cs arbitrary: t) (auto simp: cols_named_bool_col_other)

lemma cols_named_fold_numeric_col:
  "n \<notin> set cs \<Longrightarrow> cols_named (fold (numeric_col L) cs t) n = cols_named t n"
  by (induction cs arbitrary: t) (auto simp: cols_named_numeric_col_other)


lemma cols_named_fold_remove_col:
  "n \<notin> set cs \<Longrightarrow> cols_named (fold remove_col cs t) n = cols_named t n"
  by (induction cs arbitrary: t) (auto simp: cols_named_remove_col)

lemma cols_named_fold_remove_col_in:
  "n \<in> set cs \<Longrightarrow> cols_named (fold remove_col cs t) n = []"
proof (induction cs arbitrary: t)
  case Nil
  then show ?case by simp
next
  case (Cons c cs)
  show ?case
  proof (cases "n \<in> set cs")
    case True
    then show ?thesis using Cons.IH by simp
  next
    case False
    then have "n = c" using Cons.prems by simp
    then show ?thesis using False
      by (simp add: cols_named_fold_remove_col cols_named_remove_col)
  qed
qed

lemma cols_named_fold_zero_days:
  "n \<notin> set (map (\<lambda>j. ''day_'' @ j) js) \<Longrightarrow>
   cols_named (fold (\<lambda>j t. setitem_scalar t (''day_'' @ j) DInt (CInt 0)) js t) n
     = cols_named t n"
  by (induction js arbitrary: t) (auto simp: setitem_scalar_def cols_named_setitem_other)

lemma cols_named_fold_mark_other:
  "n \<notin> set (map (\<lambda>j. ''day_'' @ j) js) \<Longrightarrow>
   cols_named (fold (\<lambda>j t. if j \<in> set days then set_at t idx (''day_'' @ j) (CInt 1) else t)
                 js t) n
     = cols_named t n"
  by (induction js arbitrary: t) (auto simp: cols_named_set_at_other)







section \<open>Times of day\<close>



lemma split_on_nonempty: "split_on sep s \<noteq> []"
  by (induction s) (auto split: list.splits)





lemma filter_distinct_names:
  "distinct (map cname ks) \<Longrightarrow> length (filter (\<lambda>k. cname k = n) ks) \<le> 1"
proof (induction ks)
  case Nil
  then show ?case by simp
next
  case (Cons a ks)
  show ?case
  proof (cases "cname a = n")
    case True
    then have "n \<notin> cname ` set ks" using Cons.prems by simp
    then have "filter (\<lambda>k. cname k = n) ks = []"
      by (auto simp: filter_empty_conv)
    then show ?thesis using True by simp
  next
    case False
    then show ?thesis using Cons by simp
  qed
qed

lemma distinct_cols_named: "distinct (columns t) \<Longrightarrow> length (cols_named t n) \<le> 1"
  using filter_distinct_names [of "cols t" n] by (simp add: columns_def cols_named_def)

lemma cols_named_onboarding_filter_length:
  "length (cols_named (onboarding_filter fr t) n) = length (cols_named t n)"
  by (simp add: onboarding_filter_def cols_named_filter_rows)

lemma series_cong: "cols_named t n = cols_named t' n \<Longrightarrow> series t n = series t' n"
  by (simp add: series_def)

lemma has_col_cong: "cols_named t n = cols_named t' n \<Longrightarrow> has_col t n = has_col t' n"
  by (simp add: has_col_named)








lemma swept_float:
  "swept [Column n DFloat vs] = [Column n DFloat (map fillna0 vs)]"
  by (simp add: swept_def)








section \<open>Fields outside the schema\<close>




section \<open>The availability field\<close>

lemma nrows_fold_zero_days:
  "nrows (fold (\<lambda>j t. setitem_scalar t (''day_'' @ j) DInt (CInt 0)) js t) = nrows t"
  by (induction js arbitrary: t) (auto simp: setitem_scalar_def nrows_setitem)

lemma day_name_inj: "''day_'' @ j \<notin> set (map (\<lambda>j. ''day_'' @ j) js) \<longleftrightarrow> j \<notin> set js"
  by auto

lemma fold_zero_days_same:
  assumes "distinct js" and "J \<in> set js"
  shows "cols_named (fold (\<lambda>j t. setitem_scalar t (''day_'' @ j) DInt (CInt 0)) js t)
           (''day_'' @ J)
       = replicate (max 1 (length (cols_named t (''day_'' @ J))))
           (Column (''day_'' @ J) DInt (replicate (nrows t) (CInt 0)))"
  using assms
proof (induction js arbitrary: t)
  case Nil
  then show ?case by simp
next
  case (Cons j js)
  let ?Z = "\<lambda>j t. setitem_scalar t (''day_'' @ j) DInt (CInt 0)"
  show ?case
  proof (cases "j = J")
    case True
    then have "J \<notin> set js" using Cons.prems by simp
    then have o: "''day_'' @ J \<notin> set (map (\<lambda>j. ''day_'' @ j) js)"
      using day_name_inj [of J js] by blast
    have "cols_named (fold ?Z js (?Z J t)) (''day_'' @ J) = cols_named (?Z J t) (''day_'' @ J)"
      by (rule cols_named_fold_zero_days [OF o])
    also have "\<dots> = replicate (max 1 (length (cols_named t (''day_'' @ J))))
           (Column (''day_'' @ J) DInt (replicate (nrows t) (CInt 0)))"
      by (simp only: setitem_scalar_def cols_named_setitem_same)
    finally show ?thesis using True by simp
  next
    case False
    then have in_js: "J \<in> set js" and d: "distinct js" using Cons.prems by auto
    have ne: "''day_'' @ J \<noteq> ''day_'' @ j" using False by simp
    have c: "cols_named (?Z j t) (''day_'' @ J) = cols_named t (''day_'' @ J)"
      by (simp only: setitem_scalar_def cols_named_setitem_other [OF ne])
    have n: "nrows (?Z j t) = nrows t"
      by (simp only: setitem_scalar_def nrows_setitem)
    show ?thesis
      using Cons.IH [OF d in_js, of "?Z j t"] by (simp only: fold_simps c n)
  qed
qed

lemma fold_mark_same:
  assumes "distinct js" and "J \<in> set js"
  shows "cols_named
           (fold (\<lambda>j t. if j \<in> set days then set_at t idx (''day_'' @ j) (CInt 1) else t) js t)
           (''day_'' @ J)
       = (if J \<in> set days
          then map (\<lambda>k. Column (''day_'' @ J) (cdtype k) ((cvals k)[idx := CInt 1]))
                 (cols_named t (''day_'' @ J))
          else cols_named t (''day_'' @ J))"
  using assms
proof (induction js arbitrary: t)
  case Nil
  then show ?case by simp
next
  case (Cons j js)
  let ?M = "\<lambda>j t. if j \<in> set days then set_at t idx (''day_'' @ j) (CInt 1) else t"
  show ?case
  proof (cases "j = J")
    case True
    then have "J \<notin> set js" using Cons.prems by simp
    then have o: "''day_'' @ J \<notin> set (map (\<lambda>j. ''day_'' @ j) js)"
      using day_name_inj [of J js] by blast
    have "cols_named (fold ?M js (?M J t)) (''day_'' @ J) = cols_named (?M J t) (''day_'' @ J)"
      by (rule cols_named_fold_mark_other [OF o])
    also have "\<dots> = (if J \<in> set days
          then map (\<lambda>k. Column (''day_'' @ J) (cdtype k) ((cvals k)[idx := CInt 1]))
                 (cols_named t (''day_'' @ J))
          else cols_named t (''day_'' @ J))"
      by (simp add: cols_named_set_at_same)
    finally show ?thesis using True by simp
  next
    case False
    then have in_js: "J \<in> set js" and d: "distinct js" using Cons.prems by auto
    have ne: "''day_'' @ J \<noteq> ''day_'' @ j" using False by simp
    have c: "cols_named (?M j t) (''day_'' @ J) = cols_named t (''day_'' @ J)"
      using cols_named_set_at_other [OF ne] by simp
    show ?thesis
      using Cons.IH [OF d in_js, of "?M j t"] by (simp only: fold_simps c)
  qed
qed

lemma PREF_DAYS_distinct: "distinct PREF_DAYS"
  by (simp add: PREF_DAYS_def)

lemma cols_named_mark_rows_same:
  assumes "J \<in> set PREF_DAYS"
    and "cols_named t (''day_'' @ J) = [Column (''day_'' @ J) DInt cells]"
  shows "cols_named (mark_rows idx ds t) (''day_'' @ J)
       = [Column (''day_'' @ J) DInt (mark_cells J idx ds cells)]"
  using assms(2)
proof (induction ds arbitrary: idx t cells)
  case Nil
  then show ?case by simp
next
  case (Cons d ds)
  have m: "cols_named (mark_days idx d t) (''day_'' @ J)
      = [Column (''day_'' @ J) DInt (if J \<in> set d then cells[idx := CInt 1] else cells)]"
    unfolding mark_days_def
    by (simp only: fold_mark_same [OF PREF_DAYS_distinct assms(1)] Cons.prems) simp
  show ?case
    using Cons.IH [OF m] by simp
qed

lemma mark_cells_fill:
  "length pre = idx \<Longrightarrow>
   mark_cells J idx ds (pre @ replicate (length ds) (CInt 0))
     = pre @ map (\<lambda>d. CInt (if J \<in> set d then 1 else 0)) ds"
proof (induction ds arbitrary: idx pre)
  case Nil
  then show ?case by simp
next
  case (Cons d ds)
  let ?x = "CInt (if J \<in> set d then 1 else 0)"
  let ?cells = "pre @ replicate (length (d # ds)) (CInt 0)"
  have u: "(if J \<in> set d then ?cells[idx := CInt 1] else ?cells)
      = (pre @ [?x]) @ replicate (length ds) (CInt 0)"
    using Cons.prems by (simp add: list_update_append)
  have l: "length (pre @ [?x]) = Suc idx" using Cons.prems by simp
  have "mark_cells J idx (d # ds) ?cells
      = mark_cells J (Suc idx) ds ((pre @ [?x]) @ replicate (length ds) (CInt 0))"
    by (simp only: mark_cells.simps u)
  also have "\<dots> = (pre @ [?x]) @ map (\<lambda>d. CInt (if J \<in> set d then 1 else 0)) ds"
    by (rule Cons.IH [OF l])
  finally show ?case by simp
qed

lemma mark_cells_zero:
  "length ds = n \<Longrightarrow>
   mark_cells J 0 ds (replicate n (CInt 0)) = map (\<lambda>d. CInt (if J \<in> set d then 1 else 0)) ds"
  using mark_cells_fill [of "[]" 0 J ds] by simp

lemma cols_named_days_step_same:
  assumes "has_col t ''availableDays''" and "J \<in> set PREF_DAYS"
    and "length (cols_named t (''day_'' @ J)) \<le> 1"
    and "length (series t ''availableDays'') = nrows t"
  shows "cols_named (days_step fr t) (''day_'' @ J)
       = [Column (''day_'' @ J) DInt
            (map (\<lambda>v. CInt (if J \<in> set (encode_days fr v) then 1 else 0))
               (series t ''availableDays''))]"
proof -
  let ?Z = "\<lambda>j t. setitem_scalar t (''day_'' @ j) DInt (CInt 0)"
  let ?t1 = "fold ?Z PREF_DAYS t"
  let ?days = "map (encode_days fr) (series ?t1 ''availableDays'')"
  have av: "''availableDays'' \<notin> set (map (\<lambda>j. ''day_'' @ j) PREF_DAYS)"
    by (simp add: PREF_DAYS_def)
  have s: "series ?t1 ''availableDays'' = series t ''availableDays''"
    by (rule series_cong) (rule cols_named_fold_zero_days [OF av])
  have mx: "max 1 (length (cols_named t (''day_'' @ J))) = Suc 0" using assms(3) by simp
  have z: "cols_named ?t1 (''day_'' @ J)
      = [Column (''day_'' @ J) DInt (replicate (nrows t) (CInt 0))]"
    by (simp only: fold_zero_days_same [OF PREF_DAYS_distinct assms(2)] mx replicate.simps)
  have len: "length ?days = nrows t"
    unfolding length_map s by (rule assms(4))
  have m: "cols_named (mark_rows 0 ?days ?t1) (''day_'' @ J)
      = [Column (''day_'' @ J) DInt (map (\<lambda>d. CInt (if J \<in> set d then 1 else 0)) ?days)]"
    by (simp only: cols_named_mark_rows_same [OF assms(2) z] mark_cells_zero [OF len])
  have ne: "''day_'' @ J \<noteq> ''availableDays''" by simp
  have m2: "cols_named (mark_rows 0 (map (encode_days fr) (series t ''availableDays'')) ?t1)
        (''day_'' @ J)
      = [Column (''day_'' @ J) DInt
           (map (\<lambda>v. CInt (if J \<in> set (encode_days fr v) then 1 else 0))
              (series t ''availableDays''))]"
    using m by (simp only: s map_map comp_def)
  show ?thesis
    unfolding days_step_def Let_def
    by (simp only: assms(1) if_True cols_named_drop_col ne if_False s m2)
qed

lemma nrows_one_hot: "nrows (one_hot fr fb c t) = nrows t"
  by (simp add: one_hot_def)

lemma nrows_bool_col: "nrows (bool_col fr c t) = nrows t"
  by (simp add: bool_col_def nrows_setitem)

lemma nrows_fold_one_hot: "nrows (fold (one_hot fr fb) cs t) = nrows t"
  by (induction cs arbitrary: t) (auto simp: nrows_one_hot)

lemma nrows_fold_bool_col: "nrows (fold (bool_col fr) cs t) = nrows t"
  by (induction cs arbitrary: t) (auto simp: nrows_bool_col)

lemma nrows_pref_before_days:
  "nrows (pref_before_days L t) = nrows (onboarding_filter (float_repr L) t)"
  by (simp add: pref_before_days_def nrows_fold_bool_col nrows_fold_one_hot)

lemma one_hot_foreign_day: "one_hot_foreign PREF_ONE_HOT_COLS (''day_'' @ J)"
  by (simp add: one_hot_foreign_iff PREF_ONE_HOT_COLS_def)

lemma one_hot_foreign_available: "one_hot_foreign PREF_ONE_HOT_COLS ''availableDays''"
  by (simp add: one_hot_foreign_iff PREF_ONE_HOT_COLS_def)

lemma not_bool_day: "''day_'' @ J \<notin> set PREF_BOOL_COLS"
  by (simp add: PREF_BOOL_COLS_def)

lemma not_bool_available: "''availableDays'' \<notin> set PREF_BOOL_COLS"
  by (simp add: PREF_BOOL_COLS_def)

lemma pref_before_days_day:
  "cols_named (pref_before_days L t) (''day_'' @ J)
     = cols_named (onboarding_filter (float_repr L) t) (''day_'' @ J)"
  unfolding pref_before_days_def
  by (simp only: cols_named_fold_bool_col [OF not_bool_day]
      cols_named_fold_one_hot [OF one_hot_foreign_day])

lemma pref_before_days_available:
  "cols_named (pref_before_days L t) ''availableDays''
     = cols_named (onboarding_filter (float_repr L) t) ''availableDays''"
  unfolding pref_before_days_def
  by (simp only: cols_named_fold_bool_col [OF not_bool_available]
      cols_named_fold_one_hot [OF one_hot_foreign_available])

lemma filter_zip_length:
  "length xs = length ys \<Longrightarrow> length (filter fst (zip xs ys)) = length (filter id xs)"
  by (induction xs ys rule: list_induct2) auto

lemma wf_series_length:
  assumes "wf_table t" and "has_col t c"
  shows "length (series t c) = nrows t"
proof -
  from assms(2) obtain k ks where k: "cols_named t c = k # ks"
    by (cases "cols_named t c") (auto simp: has_col_named)
  then have "k \<in> set (cols_named t c)" by simp
  then have "k \<in> set (cols t)" by (simp add: cols_named_def)
  then have "length (cvals k) = nrows t"
    using assms(1) by (simp add: wf_table_def list_all_iff)
  then show ?thesis using k by (simp add: series_def)
qed

lemma wf_onboarding_filter:
  assumes "wf_table t"
  shows "wf_table (onboarding_filter fr t)"
proof (cases "has_col t ''onboardingComplete''")
  case True
  let ?keep = "map (truthy fr) (series t ''onboardingComplete'')"
  have lk: "length ?keep = nrows t"
    using wf_series_length [OF assms True] by simp
  have "length (map snd (filter fst (zip ?keep (cvals k)))) = length (filter id ?keep)"
    if "k \<in> set (cols t)" for k
  proof -
    have "length (cvals k) = nrows t"
      using assms that by (simp add: wf_table_def list_all_iff)
    then show ?thesis using lk filter_zip_length [of ?keep "cvals k"] by simp
  qed
  then show ?thesis
    using True by (simp add: onboarding_filter_def filter_rows_def wf_table_def list_all_iff)
next
  case False
  then show ?thesis using assms by (simp add: onboarding_filter_def)
qed

lemma swept_ints:
  "swept [Column n DInt (map (\<lambda>v. CInt (f v)) vs)] = [Column n DInt (map (\<lambda>v. CInt (f v)) vs)]"
  by (simp add: swept_def fillna0_def isna_def comp_def)

lemma prepare_preferences_as_days:
  "prepare_preferences L t =
     nan_sweep
       (fold (numeric_col L) [''latitude'', ''longitude'', ''averageSpeed'']
          (time_col (float_repr L) ''end'' ''end_hour''
             (time_col (float_repr L) ''start'' ''start_hour''
                (days_step (float_repr L) (pref_before_days L t)))))"
  by (simp add: prepare_preferences_def pref_before_days_def Let_def)

lemma day_after_days:
  "cols_named
     (fold (numeric_col L) [''latitude'', ''longitude'', ''averageSpeed'']
        (time_col fr ''end'' ''end_hour'' (time_col fr ''start'' ''start_hour'' t)))
     (''day_'' @ J)
   = cols_named t (''day_'' @ J)"
proof -
  have n: "''day_'' @ J \<notin> set [''latitude'', ''longitude'', ''averageSpeed'']"
    and e: "''day_'' @ J \<noteq> ''end''" "''day_'' @ J \<noteq> ''end_hour''"
    and b: "''day_'' @ J \<noteq> ''start''" "''day_'' @ J \<noteq> ''start_hour''"
    by simp_all
  show ?thesis
    by (simp only: cols_named_fold_numeric_col [OF n] cols_named_time_col_other [OF e]
        cols_named_time_col_other [OF b])
qed

lemma prepare_preferences_day_present:
  assumes "distinct (columns t)" and "wf_table t" and "has_col t ''availableDays''"
    and "J \<in> set PREF_DAYS"
  shows "cols_named (prepare_preferences L t) (''day_'' @ J)
       = [Column (''day_'' @ J) DInt
            (map (\<lambda>v. CInt (if J \<in> set (encode_days (float_repr L) v) then 1 else 0))
               (series (onboarding_filter (float_repr L) t) ''availableDays''))]"
proof -
  let ?fr = "float_repr L"
  let ?t1 = "onboarding_filter ?fr t"
  let ?t3 = "pref_before_days L t"
  have a1: "cols_named ?t1 ''availableDays'' \<noteq> []"
    using assms(3) cols_named_onboarding_filter_length [of ?fr t "''availableDays''"]
    by (auto simp: has_col_named)
  then have h1: "has_col ?t1 ''availableDays''" by (simp add: has_col_named)
  have h3: "has_col ?t3 ''availableDays''"
    using a1 by (simp add: has_col_named pref_before_days_available)
  have l3: "length (cols_named ?t3 (''day_'' @ J)) \<le> 1"
    using distinct_cols_named [OF assms(1), of "''day_'' @ J"]
    by (simp only: pref_before_days_day cols_named_onboarding_filter_length)
  have s3: "series ?t3 ''availableDays'' = series ?t1 ''availableDays''"
    by (rule series_cong) (rule pref_before_days_available)
  have n3: "length (series ?t3 ''availableDays'') = nrows ?t3"
    unfolding s3 nrows_pref_before_days
    by (rule wf_series_length [OF wf_onboarding_filter [OF assms(2)] h1])
  have d: "cols_named (days_step ?fr ?t3) (''day_'' @ J)
      = [Column (''day_'' @ J) DInt
           (map (\<lambda>v. CInt (if J \<in> set (encode_days ?fr v) then 1 else 0))
              (series ?t1 ''availableDays''))]"
    using cols_named_days_step_same [OF h3 assms(4) l3 n3, of ?fr] by (simp only: s3)
  show ?thesis
    unfolding prepare_preferences_as_days cols_named_nan_sweep
    by (simp only: day_after_days d swept_ints)
qed

lemma prepare_preferences_day_absent:
  assumes "\<not> has_col t ''availableDays''" and "\<not> has_col t (''day_'' @ J)"
  shows "\<not> has_col (prepare_preferences L t) (''day_'' @ J)"
proof -
  let ?fr = "float_repr L"
  let ?t1 = "onboarding_filter ?fr t"
  let ?t3 = "pref_before_days L t"
  have "cols_named ?t1 ''availableDays'' = []"
    using assms(1) cols_named_onboarding_filter_length [of ?fr t "''availableDays''"]
    by (simp add: has_col_named)
  then have "\<not> has_col ?t3 ''availableDays''"
    by (simp add: has_col_named pref_before_days_available)
  then have id: "days_step ?fr ?t3 = ?t3" by (simp add: days_step_def)
  have "cols_named ?t1 (''day_'' @ J) = []"
    using assms(2) cols_named_onboarding_filter_length [of ?fr t "''day_'' @ J"]
    by (simp add: has_col_named)
  then have e: "cols_named ?t3 (''day_'' @ J) = []"
    by (simp only: pref_before_days_day)
  have "cols_named (prepare_preferences L t) (''day_'' @ J) = []"
    unfolding prepare_preferences_as_days cols_named_nan_sweep
    by (simp only: day_after_days id e swept_Nil)
  then show ?thesis by (simp add: has_col_named)
qed

lemma encode_days_example: "encode_days fr (CStr ''MONDAY|FRIDAY'') = [''MONDAY'', ''FRIDAY'']"
  by (simp add: encode_days_def isna_def)

text \<open>
  Claim C6, as amended. When the \<open>availableDays\<close> field is present in an input table
  with distinct column names and one cell per row in every column, the encoded
  preference table has, for each of the seven day names, exactly one column \<open>day_NAME\<close>,
  of integers 0/1, whose cell in a row is 1 exactly when the name is one of the tokens
  of the row's value split on \<open>|\<close> (no token for a missing value); the value
  \<open>"MONDAY|FRIDAY"\<close> has the tokens \<open>MONDAY\<close> and \<open>FRIDAY\<close>, so \<open>day_MONDAY\<close> and
  \<open>day_FRIDAY\<close> are 1 and the other five are 0. When the field is absent the encoder
  emits no day column: a \<open>day_NAME\<close> column is in the encoded table only if the input had
  one. (The all-zero day columns of that case are added by the aligner.)
\<close>

theorem availability_days_encoding:
  "(distinct (columns t) \<and> wf_table t \<and> has_col t ''availableDays'' \<and> J \<in> set PREF_DAYS \<longrightarrow>
      cols_named (prepare_preferences L t) (''day_'' @ J)
        = [Column (''day_'' @ J) DInt
             (map (\<lambda>v. CInt (if J \<in> set (encode_days (float_repr L) v) then 1 else 0))
                (series (onboarding_filter (float_repr L) t) ''availableDays''))]) \<and>
   (\<not> has_col t ''availableDays'' \<and> \<not> has_col t (''day_'' @ J) \<longrightarrow>
      \<not> has_col (prepare_preferences L t) (''day_'' @ J)) \<and>
   encode_days fr (CStr ''MONDAY|FRIDAY'') = [''MONDAY'', ''FRIDAY''] \<and>
   (isna v \<longrightarrow> encode_days fr v = [])"
  using prepare_preferences_day_present [of t J L] prepare_preferences_day_absent [of t J L]
    encode_days_example [of fr]
  by (simp add: encode_days_def)

theorem availability_days_encoding_witness:
  "cols_named (prepare_preferences L0 (DataFrame [[(''availableDays'', CStr ''MONDAY|FRIDAY'')]]))
     ''day_MONDAY'' = [Column ''day_MONDAY'' DInt [CInt 1]] \<and>
   cols_named (prepare_preferences L0 (DataFrame [[(''availableDays'', CStr ''MONDAY|FRIDAY'')]]))
     ''day_TUESDAY'' = [Column ''day_TUESDAY'' DInt [CInt 0]] \<and>
   cols_named (prepare_preferences L0 (DataFrame [[(''availableDays'', CStr ''MONDAY|FRIDAY'')]]))
     ''day_FRIDAY'' = [Column ''day_FRIDAY'' DInt [CInt 1]]"
proof -
  let ?t = "DataFrame [[(''availableDays'', CStr ''MONDAY|FRIDAY'')]]"
  have d: "distinct (columns ?t)" and w: "wf_table ?t" and h: "has_col ?t ''availableDays''"
    by code_simp+
  have j: "''MONDAY'' \<in> set PREF_DAYS" "''TUESDAY'' \<in> set PREF_DAYS" "''FRIDAY'' \<in> set PREF_DAYS"
    by (simp_all add: PREF_DAYS_def)
  have s: "series (onboarding_filter (float_repr L0) ?t) ''availableDays''
      = [CStr ''MONDAY|FRIDAY'']"
    by code_simp
  have e: "encode_days (float_repr L0) (CStr ''MONDAY|FRIDAY'') = [''MONDAY'', ''FRIDAY'']"
    by (rule encode_days_example)
  show ?thesis
    using availability_days_encoding [of ?t "''MONDAY''" L0 "float_repr L0" CNaN]
      availability_days_encoding [of ?t "''TUESDAY''" L0 "float_repr L0" CNaN]
      availability_days_encoding [of ?t "''FRIDAY''" L0 "float_repr L0" CNaN]
      d w h j s e
    by simp
qed

theorem availability_days_absent_counterexample:
  "prepare_preferences L0 (DataFrame [[(''level'', CStr ''BEGINNER'')]])
     = Table 1 [Column ''level_BEGINNER'' DBool [CBool True]] \<and>
   \<not> has_col (Table 1 [Column ''level_BEGINNER'' DBool [CBool True]]) ''day_MONDAY''"
  by code_simp

section \<open>Categorical fields\<close>




















end
